theory Spec2Isabelle
  imports Complex_Main
begin

section \<open>Values, exceptions and the Python builtins the relay uses\<close>

text \<open>
  The relay (\<^verbatim>\<open>src/main.py\<close>) handles JSON-shaped values: the vendor's push
  messages, the candle dictionaries it builds, and the reply of the historical query.
  A dictionary is an association list in insertion order. Python floats are idealised
  as reals: rounding, infinities and NaN are outside the model.
\<close>

datatype json =
    JNull
  | JBool bool
  | JInt int
  | JFloat real
  | JStr string
  | JList "json list"
  | JDict "(string \<times> json) list"

datatype error =
  KeyError | TypeError | ValueError | IndexError | OverflowError | UpstreamError

fun bind :: "error + 'a \<Rightarrow> ('a \<Rightarrow> error + 'b) \<Rightarrow> error + 'b" where
  "bind (Inl e) f = Inl e"
| "bind (Inr x) f = f x"

text \<open>\<^verbatim>\<open>obj[key]\<close> with a string key.\<close>

fun py_getitem :: "json \<Rightarrow> string \<Rightarrow> error + json" where
  "py_getitem (JDict kvs) k = (case map_of kvs k of None \<Rightarrow> Inl KeyError | Some v \<Rightarrow> Inr v)"
| "py_getitem _ k = Inl TypeError"

text \<open>\<^verbatim>\<open>obj[i]\<close> with a non-negative integer index. The keys of a JSON
  dictionary are strings, so an integer is never among them.\<close>

fun py_index :: "json \<Rightarrow> nat \<Rightarrow> error + json" where
  "py_index (JList xs) i = (if i < length xs then Inr (xs ! i) else Inl IndexError)"
| "py_index (JStr s) i = (if i < length s then Inr (JStr [s ! i]) else Inl IndexError)"
| "py_index (JDict kvs) i = Inl KeyError"
| "py_index _ i = Inl TypeError"

text \<open>\<^verbatim>\<open>for m in obj\<close>: the elements the loop visits, in order.\<close>

fun py_iter :: "json \<Rightarrow> error + json list" where
  "py_iter (JList xs) = Inr xs"
| "py_iter (JDict kvs) = Inr (map (\<lambda>kv. JStr (fst kv)) kvs)"
| "py_iter (JStr s) = Inr (map (\<lambda>c. JStr [c]) s)"
| "py_iter _ = Inl TypeError"

text \<open>
  The builtin \<^verbatim>\<open>float(x)\<close>. The grammar of numeric strings belongs to the
  interpreter, not to the relay, and is the parameter \<open>parse\<close>: \<open>parse s\<close> is the
  number a string denotes, or \<open>None\<close> where \<^verbatim>\<open>float\<close> raises ValueError.
  An integer is converted when it rounds to a finite double, that is when its magnitude
  is below \<open>2 ^ 1024 - 2 ^ 970\<close>, halfway between the largest double and
  \<open>2 ^ 1024\<close>; from there on \<^verbatim>\<open>float\<close> raises OverflowError.
\<close>

definition int_float_limit :: int where
  "int_float_limit = 2 ^ 1024 - 2 ^ 970"

fun py_float :: "(string \<Rightarrow> real option) \<Rightarrow> json \<Rightarrow> error + real" where
  "py_float parse (JFloat r) = Inr r"
| "py_float parse (JInt i) =
     (if \<bar>i\<bar> < int_float_limit then Inr (real_of_int i) else Inl OverflowError)"
| "py_float parse (JBool b) = Inr (if b then 1 else 0)"
| "py_float parse (JStr s) = (case parse s of None \<Rightarrow> Inl ValueError | Some r \<Rightarrow> Inr r)"
| "py_float parse _ = Inl TypeError"

text \<open>A sample string grammar for concrete runs: non-empty strings of decimal digits.\<close>

definition digit_val :: "char \<Rightarrow> nat option" where
  "digit_val =
     map_of [(CHR ''0'', 0), (CHR ''1'', 1), (CHR ''2'', 2), (CHR ''3'', 3), (CHR ''4'', 4),
             (CHR ''5'', 5), (CHR ''6'', 6), (CHR ''7'', 7), (CHR ''8'', 8), (CHR ''9'', 9)]"

fun digits_acc :: "nat \<Rightarrow> string \<Rightarrow> nat option" where
  "digits_acc acc [] = Some acc"
| "digits_acc acc (c # cs) =
     (case digit_val c of None \<Rightarrow> None | Some d \<Rightarrow> digits_acc (10 * acc + d) cs)"

definition parse_digits :: "string \<Rightarrow> real option" where
  "parse_digits s = (if s = [] then None else map_option real (digits_acc 0 s))"

section \<open>The relay's global state and what it does to the outside\<close>

text \<open>
  The three module globals, and the vendor side they act on: \<open>bybit_created\<close> counts
  the \<^verbatim>\<open>BybitWebSocket\<close> objects constructed so far (the next object's handle),
  \<open>bybit_live\<close> lists the handles whose kline subscription is live
  (\<^verbatim>\<open>kline_stream\<close> called, \<^verbatim>\<open>exit\<close> not yet). The set \<^verbatim>\<open>clients\<close> is a
  duplicate-free list, in the order \<^verbatim>\<open>list(clients)\<close> visits it.
\<close>

record 'c relay =
  active_bybit_ws :: "nat option"
  message_queue :: "string list"
  clients :: "'c list"
  bybit_created :: nat
  bybit_live :: "nat list"

definition initial :: "'c relay" where
  "initial = \<lparr>active_bybit_ws = None, message_queue = [], clients = [],
     bybit_created = 0, bybit_live = []\<rparr>"

datatype 'c effect =
    Append string
  | Popleft string
  | SendText 'c string bool
  | LogSendError 'c
  | LogCallbackError error

section \<open>\<^verbatim>\<open>bybit_callback\<close>: the normalizer\<close>

text \<open>The body of the loop over \<^verbatim>\<open>data\<close> (lines 65 to 73): one raw record to one
  candle dictionary, its keys in the order the source assigns them.\<close>

definition convert_message :: "(string \<Rightarrow> real option) \<Rightarrow> json \<Rightarrow> error + json" where
  "convert_message parse m =
     bind (bind (py_getitem m ''close'') (py_float parse)) (\<lambda>close.
     bind (bind (py_getitem m ''high'') (py_float parse)) (\<lambda>high.
     bind (bind (py_getitem m ''low'') (py_float parse)) (\<lambda>low.
     bind (bind (py_getitem m ''open'') (py_float parse)) (\<lambda>opn.
     bind (bind (py_getitem m ''timestamp'') (py_float parse)) (\<lambda>timestamp.
     bind (bind (py_getitem m ''start'') (py_float parse)) (\<lambda>start.
     bind (bind (py_getitem m ''end'') (py_float parse)) (\<lambda>end_ms.
     bind (py_getitem m ''confirm'') (\<lambda>confirm.
       Inr (JDict
         [(''close'', JFloat close),
          (''high'', JFloat high),
          (''low'', JFloat low),
          (''open'', JFloat opn),
          (''time'', JFloat (timestamp / 1000 + (3 * 60 * 60))),
          (''start'', JFloat (start / 1000 + (3 * 60 * 60))),
          (''end'', JFloat (end_ms / 1000 + (3 * 60 * 60))),
          (''confirm'', confirm)])))))))))"

text \<open>The loop itself: \<open>converted_messages\<close> grows by one candle per record; the
  first record that raises ends the loop with that exception.\<close>

fun convert_loop :: "(string \<Rightarrow> real option) \<Rightarrow> json list \<Rightarrow> json list \<Rightarrow> error + json list" where
  "convert_loop parse [] converted_messages = Inr converted_messages"
| "convert_loop parse (m # ms) converted_messages =
     bind (convert_message parse m) (\<lambda>converted_message.
       convert_loop parse ms (converted_messages @ [converted_message]))"

text \<open>
  The callback: everything inside \<^verbatim>\<open>try\<close> either reaches
  \<^verbatim>\<open>message_queue.append\<close> or raises, and \<^verbatim>\<open>except Exception\<close> logs and
  returns. \<open>dumps\<close> stands for \<^verbatim>\<open>json.dumps\<close>.
\<close>

definition bybit_callback ::
  "(string \<Rightarrow> real option) \<Rightarrow> (json \<Rightarrow> string) \<Rightarrow> json \<Rightarrow> 'c relay \<Rightarrow> 'c relay \<times> 'c effect list" where
  "bybit_callback parse dumps message s =
     (case bind (py_getitem message ''data'') (\<lambda>data.
             bind (py_iter data) (\<lambda>ms. convert_loop parse ms [])) of
        Inr converted_messages \<Rightarrow>
          (s\<lparr>message_queue := message_queue s @ [dumps (JList converted_messages)]\<rparr>,
           [Append (dumps (JList converted_messages))])
      | Inl e \<Rightarrow> (s, [LogCallbackError e]))"

section \<open>\<^verbatim>\<open>broadcast_messages\<close>: one tick of the broadcast loop\<close>

text \<open>\<^verbatim>\<open>clients.add\<close> and \<^verbatim>\<open>clients.discard\<close> on the duplicate-free list.\<close>

definition set_add :: "'c \<Rightarrow> 'c list \<Rightarrow> 'c list" where
  "set_add c cs = (if c \<in> set cs then cs else cs @ [c])"

definition set_discard :: "'c \<Rightarrow> 'c list \<Rightarrow> 'c list" where
  "set_discard c cs = removeAll c cs"

text \<open>
  The loop over the snapshot \<^verbatim>\<open>list(clients)\<close> (lines 50 to 55). \<open>raises client\<close>
  tells whether \<^verbatim>\<open>client.send_text\<close> raises in this tick; the handler logs and
  discards the client, and the loop goes on to the next one. \<open>SendText c m ok\<close>
  records the call, \<open>ok\<close> when it returned.
\<close>

fun send_loop :: "('c \<Rightarrow> bool) \<Rightarrow> string \<Rightarrow> 'c list \<Rightarrow> 'c relay \<Rightarrow> 'c relay \<times> 'c effect list" where
  "send_loop raises message [] s = (s, [])"
| "send_loop raises message (client # snapshot) s =
     (if raises client
      then (case send_loop raises message snapshot
                   (s\<lparr>clients := set_discard client (clients s)\<rparr>) of
              (s', effs) \<Rightarrow> (s', SendText client message False # LogSendError client # effs))
      else (case send_loop raises message snapshot s of
              (s', effs) \<Rightarrow> (s', SendText client message True # effs)))"

text \<open>One pass through the body of \<^verbatim>\<open>while True\<close> (lines 48 to 55); the sleep
  that separates two passes is not modelled.\<close>

definition broadcast_tick :: "('c \<Rightarrow> bool) \<Rightarrow> 'c relay \<Rightarrow> 'c relay \<times> 'c effect list" where
  "broadcast_tick raises s =
     (case message_queue s of
        [] \<Rightarrow> (s, [])
      | message # rest \<Rightarrow>
          (if clients s \<noteq> []
           then (case send_loop raises message (clients s) (s\<lparr>message_queue := rest\<rparr>) of
                   (s', effs) \<Rightarrow> (s', Popleft message # effs))
           else (s, [])))"

section \<open>\<^verbatim>\<open>websocket_endpoint\<close>: registration and the upstream subscription\<close>

text \<open>What the vendor library does when lines 91 to 99 run: both calls return, or
  the constructor raises, or \<^verbatim>\<open>kline_stream\<close> raises.\<close>

datatype upstream_outcome = Subscribed | ConstructorRaises | KlineStreamRaises

text \<open>The \<^verbatim>\<open>finally\<close> block (lines 112 to 115).\<close>

definition websocket_endpoint_finally :: "'c \<Rightarrow> 'c relay \<Rightarrow> 'c relay" where
  "websocket_endpoint_finally websocket s =
     (let s1 = s\<lparr>clients := set_discard websocket (clients s)\<rparr> in
      case active_bybit_ws s1 of
        Some h \<Rightarrow>
          (if clients s1 = []
           then s1\<lparr>bybit_live := removeAll h (bybit_live s1), active_bybit_ws := None\<rparr>
           else s1)
      | None \<Rightarrow> s1)"

text \<open>
  Lines 85 to 99, up to the first wait for a client message. No \<^verbatim>\<open>await\<close> stands
  between \<^verbatim>\<open>clients.add\<close> and the end of the \<^verbatim>\<open>if\<close>, so the event loop runs
  them as one step. An exception of the vendor library leaves through \<^verbatim>\<open>finally\<close>.
  The receive loop that follows (lines 102 to 108) assigns none of the three globals
  and opens no kline subscription; it ends in \<^verbatim>\<open>finally\<close>.
\<close>

definition websocket_endpoint_connect :: "upstream_outcome \<Rightarrow> 'c \<Rightarrow> 'c relay \<Rightarrow> 'c relay" where
  "websocket_endpoint_connect outcome websocket s =
     (let s1 = s\<lparr>clients := set_add websocket (clients s)\<rparr> in
      case active_bybit_ws s1 of
        Some h \<Rightarrow> s1
      | None \<Rightarrow>
          (case outcome of
             ConstructorRaises \<Rightarrow> websocket_endpoint_finally websocket s1
           | KlineStreamRaises \<Rightarrow>
               websocket_endpoint_finally websocket
                 (s1\<lparr>active_bybit_ws := Some (bybit_created s1),
                     bybit_created := Suc (bybit_created s1)\<rparr>)
           | Subscribed \<Rightarrow>
               s1\<lparr>active_bybit_ws := Some (bybit_created s1),
                   bybit_created := Suc (bybit_created s1),
                   bybit_live := bybit_live s1 @ [bybit_created s1]\<rparr>))"

section \<open>Runs of the relay\<close>

datatype 'c event =
    Connect 'c upstream_outcome
  | Disconnect 'c
  | Callback json
  | Tick "'c \<Rightarrow> bool"

fun step :: "(string \<Rightarrow> real option) \<Rightarrow> (json \<Rightarrow> string) \<Rightarrow> 'c event \<Rightarrow> 'c relay
    \<Rightarrow> 'c relay \<times> 'c effect list" where
  "step parse dumps (Connect c outcome) s = (websocket_endpoint_connect outcome c s, [])"
| "step parse dumps (Disconnect c) s = (websocket_endpoint_finally c s, [])"
| "step parse dumps (Callback message) s = bybit_callback parse dumps message s"
| "step parse dumps (Tick raises) s = broadcast_tick raises s"

fun run :: "(string \<Rightarrow> real option) \<Rightarrow> (json \<Rightarrow> string) \<Rightarrow> 'c event list \<Rightarrow> 'c relay
    \<Rightarrow> 'c relay \<times> 'c effect list" where
  "run parse dumps [] s = (s, [])"
| "run parse dumps (e # es) s =
     (case step parse dumps e s of
        (s1, effs1) \<Rightarrow>
          (case run parse dumps es s1 of (s2, effs2) \<Rightarrow> (s2, effs1 @ effs2)))"

fun is_lifecycle :: "'c event \<Rightarrow> bool" where
  "is_lifecycle (Connect c outcome) = True"
| "is_lifecycle (Disconnect c) = True"
| "is_lifecycle _ = False"

fun appended :: "'c effect list \<Rightarrow> string list" where
  "appended [] = []"
| "appended (Append m # effs) = m # appended effs"
| "appended (_ # effs) = appended effs"

fun popped :: "'c effect list \<Rightarrow> string list" where
  "popped [] = []"
| "popped (Popleft m # effs) = m # popped effs"
| "popped (_ # effs) = popped effs"

text \<open>The calls of \<^verbatim>\<open>send_text\<close> in a trace, and those that returned.\<close>

fun sent :: "'c effect list \<Rightarrow> ('c \<times> string) list" where
  "sent [] = []"
| "sent (SendText c m ok # effs) = (c, m) # sent effs"
| "sent (_ # effs) = sent effs"

fun delivered :: "'c effect list \<Rightarrow> ('c \<times> string) list" where
  "delivered [] = []"
| "delivered (SendText c m ok # effs) = (if ok then (c, m) # delivered effs else delivered effs)"
| "delivered (_ # effs) = delivered effs"

text \<open>
  The dispatches of a trace: every \<^verbatim>\<open>popleft\<close> with the calls of
  \<^verbatim>\<open>send_text\<close> that follow it up to the next \<^verbatim>\<open>popleft\<close>, each call as the
  client and the text written. A dispatch is in order when it writes to at least one
  client and every text it writes is the batch it popped.
\<close>

fun sends_after :: "'c effect list \<Rightarrow> ('c \<times> string) list" where
  "sends_after [] = []"
| "sends_after (Popleft m # effs) = []"
| "sends_after (SendText c m ok # effs) = (c, m) # sends_after effs"
| "sends_after (_ # effs) = sends_after effs"

fun dispatches :: "'c effect list \<Rightarrow> (string \<times> ('c \<times> string) list) list" where
  "dispatches [] = []"
| "dispatches (Popleft m # effs) = (m, sends_after effs) # dispatches effs"
| "dispatches (_ # effs) = dispatches effs"

definition dispatch_ok :: "string \<times> ('c \<times> string) list \<Rightarrow> bool" where
  "dispatch_ok d = (snd d \<noteq> [] \<and> list_all (\<lambda>w. snd w = fst d) (snd d))"

text \<open>A stand-in for \<^verbatim>\<open>json.dumps\<close> in concrete runs: it shows how many
  candles a batch holds.\<close>

fun sample_dumps :: "json \<Rightarrow> string" where
  "sample_dumps (JList xs) = ''['' @ replicate (length xs) (CHR ''c'') @ '']''"
| "sample_dumps _ = ''?''"

section \<open>\<^verbatim>\<open>read_root\<close>: the historical query\<close>

text \<open>Lines 127 to 134: the keyword arguments of the upstream call.\<close>

definition kline_params ::
  "(string \<Rightarrow> real option) \<Rightarrow> string \<Rightarrow> string \<Rightarrow> string \<Rightarrow> int option \<Rightarrow> string option
    \<Rightarrow> error + (string \<times> json) list" where
  "kline_params parse category symbol interval limit end_arg =
     (let params =
        [(''category'', JStr category),
         (''symbol'', JStr symbol),
         (''interval'', JStr interval),
         (''limit'', JInt (case limit of None \<Rightarrow> 200 | Some n \<Rightarrow> if n = 0 then 200 else n))]
      in case end_arg of
           None \<Rightarrow> Inr params
         | Some e \<Rightarrow>
             (if e = [] then Inr params
              else bind (py_float parse (JStr e)) (\<lambda>x.
                     Inr (params @ [(''end'', JFloat ((x - (3 * 60 * 60)) * 1000))]))))"

text \<open>Lines 139 to 146: one upstream row to one reply entry.\<close>

definition candlestick :: "(string \<Rightarrow> real option) \<Rightarrow> json \<Rightarrow> error + json" where
  "candlestick parse kline_history_data =
     bind (bind (py_index kline_history_data 0) (py_float parse)) (\<lambda>t.
     bind (bind (py_index kline_history_data 1) (py_float parse)) (\<lambda>opn.
     bind (bind (py_index kline_history_data 2) (py_float parse)) (\<lambda>high.
     bind (bind (py_index kline_history_data 3) (py_float parse)) (\<lambda>low.
     bind (bind (py_index kline_history_data 4) (py_float parse)) (\<lambda>close.
       Inr (JDict
         [(''time'', JFloat (t / 1000 + (3 * 60 * 60))),
          (''open'', JFloat opn),
          (''high'', JFloat high),
          (''low'', JFloat low),
          (''close'', JFloat close)]))))))"

text \<open>The loop over \<^verbatim>\<open>range(len(klines_history))\<close>, which overwrites the list in
  place, index by index.\<close>

fun candlestick_loop :: "(string \<Rightarrow> real option) \<Rightarrow> nat list \<Rightarrow> json list \<Rightarrow> error + json list" where
  "candlestick_loop parse [] klines_history = Inr klines_history"
| "candlestick_loop parse (candlestick_idx # idxs) klines_history =
     (if candlestick_idx < length klines_history
      then bind (candlestick parse (klines_history ! candlestick_idx)) (\<lambda>v.
             candlestick_loop parse idxs (klines_history[candlestick_idx := v]))
      else Inl IndexError)"

text \<open>
  Lines 137 to 148: what the endpoint makes of the reply of the upstream call. The
  vendor's reply carries a JSON array under \<^verbatim>\<open>["result"]["list"]\<close>; the other
  cases are what Python (3.12) does on a string, a dictionary and a value without
  length.
\<close>

definition reply_entries :: "(string \<Rightarrow> real option) \<Rightarrow> json \<Rightarrow> error + json" where
  "reply_entries parse reply =
     bind (py_getitem reply ''result'') (\<lambda>result.
     bind (py_getitem result ''list'') (\<lambda>klines_history.
       (case klines_history of
          JList xs \<Rightarrow>
            bind (candlestick_loop parse [0..<length xs] xs) (\<lambda>xs'. Inr (JList (rev xs')))
        | JStr str \<Rightarrow>
            (case str of
               [] \<Rightarrow> Inr (JStr [])
             | c # _ \<Rightarrow> bind (py_float parse (JStr [c])) (\<lambda>_. Inl IndexError))
        | JDict kvs \<Rightarrow> Inl KeyError
        | _ \<Rightarrow> Inl TypeError)))"

text \<open>
  The endpoint. \<open>get_kline\<close> stands for the vendor library's HTTP call: the endpoint
  calls it once, with the keyword arguments of lines 127 to 134, unless building them
  has raised; an exception of the call leaves the endpoint as it is.
\<close>

definition read_root ::
  "(string \<Rightarrow> real option) \<Rightarrow> ((string \<times> json) list \<Rightarrow> error + json)
    \<Rightarrow> string \<Rightarrow> string \<Rightarrow> string \<Rightarrow> int option \<Rightarrow> string option \<Rightarrow> error + json" where
  "read_root parse get_kline category symbol interval limit end_arg =
     bind (kline_params parse category symbol interval limit end_arg) (\<lambda>params.
     bind (get_kline params) (\<lambda>klines_history. reply_entries parse klines_history))"

section \<open>The specification's notions\<close>

text \<open>
  A raw record's field, and its value as a number where \<^verbatim>\<open>float\<close> accepts it. A
  record is well formed when its seven numeric fields are present and numeric and
  \<^verbatim>\<open>confirm\<close> is present; otherwise it is malformed.
\<close>

definition raw_field :: "json \<Rightarrow> string \<Rightarrow> json option" where
  "raw_field m k = (case m of JDict kvs \<Rightarrow> map_of kvs k | _ \<Rightarrow> None)"

definition numeric_field :: "(string \<Rightarrow> real option) \<Rightarrow> json \<Rightarrow> string \<Rightarrow> real option" where
  "numeric_field parse m k =
     (case raw_field m k of
        None \<Rightarrow> None
      | Some v \<Rightarrow> (case py_float parse v of Inl e \<Rightarrow> None | Inr r \<Rightarrow> Some r))"

definition well_formed :: "(string \<Rightarrow> real option) \<Rightarrow> json \<Rightarrow> bool" where
  "well_formed parse m =
     (numeric_field parse m ''close'' \<noteq> None \<and> numeric_field parse m ''high'' \<noteq> None \<and>
      numeric_field parse m ''low'' \<noteq> None \<and> numeric_field parse m ''open'' \<noteq> None \<and>
      numeric_field parse m ''timestamp'' \<noteq> None \<and> numeric_field parse m ''start'' \<noteq> None \<and>
      numeric_field parse m ''end'' \<noteq> None \<and> raw_field m ''confirm'' \<noteq> None)"

text \<open>The candle the specification asks for (section 4.1 and the conversion property of
  section 8): the prices parsed, each timestamp divided by 1000 plus 10800 seconds,
  \<^verbatim>\<open>confirm\<close> as it came.\<close>

definition spec_candle :: "(string \<Rightarrow> real option) \<Rightarrow> json \<Rightarrow> json option" where
  "spec_candle parse m =
     Option.bind (numeric_field parse m ''close'') (\<lambda>c.
     Option.bind (numeric_field parse m ''high'') (\<lambda>h.
     Option.bind (numeric_field parse m ''low'') (\<lambda>l.
     Option.bind (numeric_field parse m ''open'') (\<lambda>opn.
     Option.bind (numeric_field parse m ''timestamp'') (\<lambda>T.
     Option.bind (numeric_field parse m ''start'') (\<lambda>S.
     Option.bind (numeric_field parse m ''end'') (\<lambda>E.
     Option.bind (raw_field m ''confirm'') (\<lambda>cf.
       Some (JDict
         [(''close'', JFloat c), (''high'', JFloat h), (''low'', JFloat l), (''open'', JFloat opn),
          (''time'', JFloat (T / 1000 + 10800)),
          (''start'', JFloat (S / 1000 + 10800)),
          (''end'', JFloat (E / 1000 + 10800)),
          (''confirm'', cf)])))))))))"

text \<open>The invariant of the specification's Candle (section 3), read on a candle
  dictionary: \<open>start \<le> time\<close> and \<open>start \<le> end\<close>.\<close>

definition candle_ordered :: "json \<Rightarrow> bool" where
  "candle_ordered c =
     (case (raw_field c ''start'', raw_field c ''time'', raw_field c ''end'') of
        (Some (JFloat st), Some (JFloat t), Some (JFloat e)) \<Rightarrow> st \<le> t \<and> st \<le> e
      | _ \<Rightarrow> False)"

text \<open>The reply entry the specification asks for (section 6 and the reversal property
  of section 8), for an upstream row that is a list of at least five numeric items.\<close>

definition numeric :: "(string \<Rightarrow> real option) \<Rightarrow> json \<Rightarrow> real option" where
  "numeric parse v = (case py_float parse v of Inl e \<Rightarrow> None | Inr r \<Rightarrow> Some r)"

definition spec_entry :: "(string \<Rightarrow> real option) \<Rightarrow> json \<Rightarrow> json option" where
  "spec_entry parse r =
     (case r of
        JList (t # opn # h # l # c # rest) \<Rightarrow>
          Option.bind (numeric parse t) (\<lambda>T.
          Option.bind (numeric parse opn) (\<lambda>opn'.
          Option.bind (numeric parse h) (\<lambda>h'.
          Option.bind (numeric parse l) (\<lambda>l'.
          Option.bind (numeric parse c) (\<lambda>c'.
            Some (JDict
              [(''time'', JFloat (T / 1000 + 10800)), (''open'', JFloat opn'),
               (''high'', JFloat h'), (''low'', JFloat l'), (''close'', JFloat c')]))))))
      | _ \<Rightarrow> None)"

text \<open>The upstream subscription is Open when \<^verbatim>\<open>active_bybit_ws\<close> holds an object,
  Closed when it is \<^verbatim>\<open>None\<close>.\<close>

definition upstream_open :: "'c relay \<Rightarrow> bool" where
  "upstream_open s = (active_bybit_ws s \<noteq> None)"

text \<open>What holds of the subscription in every state the relay reaches: without an
  object there are no registered clients, and the live kline subscriptions are exactly
  the one of the object held, if any.\<close>

definition subscription_inv :: "'c relay \<Rightarrow> bool" where
  "subscription_inv s =
     ((active_bybit_ws s = None \<longrightarrow> clients s = []) \<and>
      bybit_live s = (case active_bybit_ws s of None \<Rightarrow> [] | Some h \<Rightarrow> [h]))"

section \<open>Sample inputs for concrete runs\<close>

definition sample_record :: json where
  "sample_record =
     JDict [(''start'', JInt 60000), (''end'', JInt 119999), (''interval'', JStr ''1''),
       (''open'', JStr ''10''), (''close'', JStr ''12''), (''high'', JStr ''13''),
       (''low'', JStr ''9''), (''confirm'', JBool False), (''timestamp'', JInt 90000)]"

definition malformed_record :: json where
  "malformed_record =
     JDict [(''start'', JInt 120000), (''end'', JInt 179999), (''interval'', JStr ''1''),
       (''open'', JStr ''12''), (''close'', JStr ''n/a''), (''high'', JStr ''14''),
       (''low'', JStr ''11''), (''confirm'', JBool False), (''timestamp'', JInt 150000)]"

definition unordered_record :: json where
  "unordered_record =
     JDict [(''start'', JInt 120000), (''end'', JInt 60000), (''interval'', JStr ''1''),
       (''open'', JStr ''10''), (''close'', JStr ''12''), (''high'', JStr ''13''),
       (''low'', JStr ''9''), (''confirm'', JBool True), (''timestamp'', JInt 0)]"

definition overflow_record :: json where
  "overflow_record =
     JDict [(''start'', JInt 60000), (''end'', JInt 119999), (''interval'', JStr ''1''),
       (''open'', JStr ''10''), (''close'', JInt (10 ^ 309)), (''high'', JStr ''13''),
       (''low'', JStr ''9''), (''confirm'', JBool False), (''timestamp'', JInt 90000)]"

definition overflow_reply :: json where
  "overflow_reply =
     JDict [(''result'',
             JDict [(''list'',
                     JList [JList [JInt (10 ^ 309), JStr ''12'', JStr ''14'', JStr ''11'',
                                   JStr ''13'']])])]"

definition sample_run :: "nat event list" where
  "sample_run =
     [Callback (JDict [(''data'', JList [])]),
      Callback (JDict [(''data'', JList [sample_record])]),
      Tick (\<lambda>c. False),
      Connect 1 Subscribed,
      Tick (\<lambda>c. True),
      Connect 2 Subscribed,
      Tick (\<lambda>c. False)]"

definition lifecycle_run_a :: "nat event list" where
  "lifecycle_run_a = [Connect 1 Subscribed, Disconnect 1]"

definition lifecycle_run_b :: "nat event list" where
  "lifecycle_run_b = [Connect 1 ConstructorRaises, Connect 1 Subscribed, Connect 2 Subscribed,
     Disconnect 1]"

definition sample_rows :: "json list" where
  "sample_rows =
     [JList [JStr ''120000'', JStr ''12'', JStr ''14'', JStr ''11'', JStr ''13'',
             JStr ''100'', JStr ''1300''],
      JList [JStr ''60000'', JStr ''10'', JStr ''13'', JStr ''9'', JStr ''12'',
             JStr ''200'', JStr ''2400'']]"

definition sample_get_kline :: "(string \<times> json) list \<Rightarrow> error + json" where
  "sample_get_kline params =
     Inr (JDict [(''retCode'', JInt 0),
                 (''result'', JDict [(''symbol'', JStr ''KAITOUSDT''),
                                     (''list'', JList sample_rows)])])"

definition sample_entries :: "json list" where
  "sample_entries =
     [JDict [(''time'', JFloat 10920), (''open'', JFloat 12), (''high'', JFloat 14),
             (''low'', JFloat 11), (''close'', JFloat 13)],
      JDict [(''time'', JFloat 10860), (''open'', JFloat 10), (''high'', JFloat 13),
             (''low'', JFloat 9), (''close'', JFloat 12)]]"

definition sample_params :: "(string \<times> json) list" where
  "sample_params =
     [(''category'', JStr ''linear''), (''symbol'', JStr ''KAITOUSDT''),
      (''interval'', JStr ''1''), (''limit'', JInt 200), (''end'', JFloat 180000)]"

section \<open>The broadcast loop: dispatch, fault isolation, FIFO\<close>

lemma send_loop_state:
  "fst (send_loop raises message snapshot s) =
     s\<lparr>clients := filter (\<lambda>c. \<not> (c \<in> set snapshot \<and> raises c)) (clients s)\<rparr>"
proof (induction snapshot arbitrary: s)
  case Nil
  show ?case by simp
next
  case (Cons client snapshot)
  have discard: "filter (\<lambda>c. \<not> (c \<in> set snapshot \<and> raises c)) (removeAll client cs) =
      filter (\<lambda>c. \<not> (c \<in> set (client # snapshot) \<and> raises c)) cs"
    if "raises client" for cs
    using that by (induction cs) auto
  have keep: "filter (\<lambda>c. \<not> (c \<in> set snapshot \<and> raises c)) cs =
      filter (\<lambda>c. \<not> (c \<in> set (client # snapshot) \<and> raises c)) cs"
    if "\<not> raises client" for cs
    using that by (induction cs) auto
  show ?case
  proof (cases "raises client")
    case True
    then show ?thesis
      using discard[OF True, of "clients s"]
      by (simp add: Cons.IH case_prod_beta set_discard_def)
  next
    case False
    then show ?thesis
      using keep[OF False, of "clients s"]
      by (simp add: Cons.IH case_prod_beta)
  qed
qed

lemma send_loop_sent:
  "sent (snd (send_loop raises message snapshot s)) = map (\<lambda>c. (c, message)) snapshot"
  by (induction snapshot arbitrary: s) (simp_all add: case_prod_beta)

lemma send_loop_delivered:
  "delivered (snd (send_loop raises message snapshot s)) =
     map (\<lambda>c. (c, message)) (filter (\<lambda>c. \<not> raises c) snapshot)"
  by (induction snapshot arbitrary: s) (simp_all add: case_prod_beta)

lemma send_loop_popped: "popped (snd (send_loop raises message snapshot s)) = []"
  by (induction snapshot arbitrary: s) (simp_all add: case_prod_beta)

lemma send_loop_appended: "appended (snd (send_loop raises message snapshot s)) = []"
  by (induction snapshot arbitrary: s) (simp_all add: case_prod_beta)

lemma filter_snapshot: "filter (\<lambda>c. c \<in> set cs \<longrightarrow> \<not> raises c) cs = filter (\<lambda>c. \<not> raises c) cs"
  by (rule filter_cong) auto

lemma broadcast_tick_Cons:
  assumes "message_queue s = message # rest" and "clients s \<noteq> []"
  shows "fst (broadcast_tick raises s) =
           s\<lparr>message_queue := rest, clients := filter (\<lambda>c. \<not> raises c) (clients s)\<rparr>"
    and "sent (snd (broadcast_tick raises s)) = map (\<lambda>c. (c, message)) (clients s)"
    and "delivered (snd (broadcast_tick raises s)) =
           map (\<lambda>c. (c, message)) (filter (\<lambda>c. \<not> raises c) (clients s))"
    and "popped (snd (broadcast_tick raises s)) = [message]"
    and "appended (snd (broadcast_tick raises s)) = []"
  using assms
  by (simp_all add: broadcast_tick_def case_prod_beta send_loop_state send_loop_sent
      send_loop_delivered send_loop_popped send_loop_appended filter_snapshot)

lemma broadcast_tick_idle:
  assumes "message_queue s = [] \<or> clients s = []"
  shows "broadcast_tick raises s = (s, [])"
  using assms by (auto simp: broadcast_tick_def split: list.splits)

text \<open>
  C1. In one tick, when both the queue and the registry are non-empty, the head of the
  queue and nothing else is removed, and \<^verbatim>\<open>send_text\<close> is called with it once for
  every registered client, in the order of the snapshot. When the queue is non-empty
  and the registry is empty, the tick changes nothing and sends nothing.
\<close>

theorem broadcast_tick_dispatch:
  "(message_queue s \<noteq> [] \<and> clients s \<noteq> [] \<longrightarrow>
      message_queue (fst (broadcast_tick raises s)) = tl (message_queue s) \<and>
      popped (snd (broadcast_tick raises s)) = [hd (message_queue s)] \<and>
      sent (snd (broadcast_tick raises s)) = map (\<lambda>c. (c, hd (message_queue s))) (clients s))
   \<and> (message_queue s \<noteq> [] \<and> clients s = [] \<longrightarrow> broadcast_tick raises s = (s, []))"
proof (cases "message_queue s")
  case Nil
  then show ?thesis by simp
next
  case (Cons message rest)
  show ?thesis
  proof (cases "clients s = []")
    case True
    then show ?thesis by (simp add: broadcast_tick_idle)
  next
    case False
    show ?thesis
      using False broadcast_tick_Cons(1,2,4)[OF Cons False, of raises] Cons by simp
  qed
qed

theorem broadcast_tick_dispatch_witness:
  "message_queue \<lparr>active_bybit_ws = Some 0, message_queue = [''a'', ''b''],
      clients = [1::nat, 2], bybit_created = 1, bybit_live = [0]\<rparr> \<noteq> []
   \<and> clients \<lparr>active_bybit_ws = Some 0, message_queue = [''a'', ''b''],
      clients = [1::nat, 2], bybit_created = 1, bybit_live = [0]\<rparr> \<noteq> []
   \<and> message_queue (fst (broadcast_tick (\<lambda>c. c = 2)
       \<lparr>active_bybit_ws = Some 0, message_queue = [''a'', ''b''],
        clients = [1::nat, 2], bybit_created = 1, bybit_live = [0]\<rparr>)) = [''b'']
   \<and> popped (snd (broadcast_tick (\<lambda>c. c = 2)
       \<lparr>active_bybit_ws = Some 0, message_queue = [''a'', ''b''],
        clients = [1::nat, 2], bybit_created = 1, bybit_live = [0]\<rparr>)) = [''a'']
   \<and> sent (snd (broadcast_tick (\<lambda>c. c = 2)
       \<lparr>active_bybit_ws = Some 0, message_queue = [''a'', ''b''],
        clients = [1::nat, 2], bybit_created = 1, bybit_live = [0]\<rparr>)) = [(1, ''a''), (2, ''a'')]
   \<and> broadcast_tick (\<lambda>c. c = 2)
       \<lparr>active_bybit_ws = None, message_queue = [''a'', ''b''],
        clients = ([]::nat list), bybit_created = 1, bybit_live = []\<rparr>
     = (\<lparr>active_bybit_ws = None, message_queue = [''a'', ''b''],
        clients = [], bybit_created = 1, bybit_live = []\<rparr>, [])"
  using broadcast_tick_dispatch[of
      "\<lparr>active_bybit_ws = Some 0, message_queue = [''a'', ''b''],
        clients = [1::nat, 2], bybit_created = 1, bybit_live = [0]\<rparr>" "\<lambda>c. c = 2"]
    broadcast_tick_dispatch[of
      "\<lparr>active_bybit_ws = None, message_queue = [''a'', ''b''],
        clients = ([]::nat list), bybit_created = 1, bybit_live = []\<rparr>" "\<lambda>c. c = 2"]
  by simp

text \<open>
  C5. In the dispatch of one batch, a client whose write raises is no longer registered
  when the dispatch ends, and the failure stops nothing: \<^verbatim>\<open>send_text\<close> is still
  called for every client of the snapshot, the batch reaches every client whose write
  does not raise, and those clients stay registered.
\<close>

theorem broadcast_fault_isolation:
  assumes "message_queue s = message # rest" and "a \<in> set (clients s)" and "raises a"
  shows "a \<notin> set (clients (fst (broadcast_tick raises s)))
    \<and> sent (snd (broadcast_tick raises s)) = map (\<lambda>c. (c, message)) (clients s)
    \<and> delivered (snd (broadcast_tick raises s)) =
        map (\<lambda>c. (c, message)) (filter (\<lambda>c. \<not> raises c) (clients s))
    \<and> clients (fst (broadcast_tick raises s)) = filter (\<lambda>c. \<not> raises c) (clients s)"
proof -
  from assms(2) have nonempty: "clients s \<noteq> []" by auto
  note tick = broadcast_tick_Cons[OF assms(1) nonempty, of raises]
  have "a \<notin> set (filter (\<lambda>c. \<not> raises c) (clients s))"
    using assms(3) by simp
  then show ?thesis
    by (simp add: tick)
qed

theorem broadcast_fault_isolation_witness:
  "message_queue \<lparr>active_bybit_ws = Some 0, message_queue = [''a'', ''b''],
      clients = [1::nat, 2, 3], bybit_created = 1, bybit_live = [0]\<rparr> = ''a'' # [''b'']
   \<and> (2::nat) \<in> set (clients \<lparr>active_bybit_ws = Some 0, message_queue = [''a'', ''b''],
      clients = [1::nat, 2, 3], bybit_created = 1, bybit_live = [0]\<rparr>)
   \<and> (\<lambda>c. c = (2::nat)) 2
   \<and> (2::nat) \<notin> set (clients (fst (broadcast_tick (\<lambda>c. c = 2)
       \<lparr>active_bybit_ws = Some 0, message_queue = [''a'', ''b''],
        clients = [1::nat, 2, 3], bybit_created = 1, bybit_live = [0]\<rparr>)))
   \<and> sent (snd (broadcast_tick (\<lambda>c. c = 2)
       \<lparr>active_bybit_ws = Some 0, message_queue = [''a'', ''b''],
        clients = [1::nat, 2, 3], bybit_created = 1, bybit_live = [0]\<rparr>))
      = [(1, ''a''), (2, ''a''), (3, ''a'')]
   \<and> delivered (snd (broadcast_tick (\<lambda>c. c = 2)
       \<lparr>active_bybit_ws = Some 0, message_queue = [''a'', ''b''],
        clients = [1::nat, 2, 3], bybit_created = 1, bybit_live = [0]\<rparr>))
      = [(1, ''a''), (3, ''a'')]
   \<and> clients (fst (broadcast_tick (\<lambda>c. c = 2)
       \<lparr>active_bybit_ws = Some 0, message_queue = [''a'', ''b''],
        clients = [1::nat, 2, 3], bybit_created = 1, bybit_live = [0]\<rparr>)) = [1, 3]"
  using broadcast_fault_isolation[of
      "\<lparr>active_bybit_ws = Some 0, message_queue = [''a'', ''b''],
        clients = [1::nat, 2, 3], bybit_created = 1, bybit_live = [0]\<rparr>"
      "''a''" "[''b'']" 2 "\<lambda>c. c = 2"]
  by simp

lemma websocket_endpoint_finally_queue:
  "message_queue (websocket_endpoint_finally c s) = message_queue s"
  by (simp add: websocket_endpoint_finally_def Let_def split: option.splits)

lemma websocket_endpoint_connect_queue:
  "message_queue (websocket_endpoint_connect outcome c s) = message_queue s"
  by (simp add: websocket_endpoint_connect_def websocket_endpoint_finally_queue Let_def
      split: option.splits upstream_outcome.splits)

lemma bybit_callback_fifo:
  "popped (snd (bybit_callback parse dumps message s)) = [] \<and>
   message_queue (fst (bybit_callback parse dumps message s)) =
     message_queue s @ appended (snd (bybit_callback parse dumps message s))"
  by (simp add: bybit_callback_def split: sum.splits)

lemma broadcast_tick_fifo:
  "popped (snd (broadcast_tick raises s)) @ message_queue (fst (broadcast_tick raises s)) =
     message_queue s \<and> appended (snd (broadcast_tick raises s)) = []"
proof (cases "message_queue s = [] \<or> clients s = []")
  case True
  then show ?thesis by (simp add: broadcast_tick_idle)
next
  case False
  then obtain message rest where q: "message_queue s = message # rest"
    by (cases "message_queue s") auto
  from False have "clients s \<noteq> []" by simp
  from broadcast_tick_Cons(1,4,5)[OF q this, of raises] q show ?thesis by simp
qed

lemma step_fifo:
  "popped (snd (step parse dumps e s)) @ message_queue (fst (step parse dumps e s)) =
     message_queue s @ appended (snd (step parse dumps e s))"
proof (cases e)
  case (Connect c outcome)
  then show ?thesis by (simp add: websocket_endpoint_connect_queue)
next
  case (Disconnect c)
  then show ?thesis by (simp add: websocket_endpoint_finally_queue)
next
  case (Callback message)
  then show ?thesis using bybit_callback_fifo[of parse dumps message s] by simp
next
  case (Tick raises)
  then show ?thesis using broadcast_tick_fifo[of raises s] by simp
qed

lemma popped_append: "popped (xs @ ys) = popped xs @ popped ys"
  by (induction xs rule: popped.induct) simp_all

lemma appended_append: "appended (xs @ ys) = appended xs @ appended ys"
  by (induction xs rule: appended.induct) simp_all

lemma run_fifo:
  "popped (snd (run parse dumps evs s)) @ message_queue (fst (run parse dumps evs s)) =
     message_queue s @ appended (snd (run parse dumps evs s))"
proof (induction evs arbitrary: s)
  case Nil
  show ?case by simp
next
  case (Cons e es)
  obtain s1 effs1 where st: "step parse dumps e s = (s1, effs1)"
    by (cases "step parse dumps e s")
  obtain s2 effs2 where rn: "run parse dumps es s1 = (s2, effs2)"
    by (cases "run parse dumps es s1")
  from step_fifo[of parse dumps e s] st
  have one: "popped effs1 @ message_queue s1 = message_queue s @ appended effs1" by simp
  from Cons.IH[of s1] rn
  have rest: "popped effs2 @ message_queue s2 = message_queue s1 @ appended effs2" by simp
  have "popped (effs1 @ effs2) @ message_queue s2 = popped effs1 @ (popped effs2 @ message_queue s2)"
    by (simp add: popped_append)
  also have "\<dots> = (popped effs1 @ message_queue s1) @ appended effs2"
    by (simp add: rest)
  also have "\<dots> = message_queue s @ appended (effs1 @ effs2)"
    by (simp add: one appended_append)
  finally show ?case by (simp add: st rn)
qed

lemma sent_append: "sent (xs @ ys) = sent xs @ sent ys"
  by (induction xs rule: sent.induct) simp_all

lemma sends_after_append:
  "sends_after ys = [] \<Longrightarrow> sends_after (xs @ ys) = sends_after xs"
  by (induction xs rule: sends_after.induct) simp_all

lemma dispatches_append:
  "sends_after ys = [] \<Longrightarrow> dispatches (xs @ ys) = dispatches xs @ dispatches ys"
  by (induction xs rule: dispatches.induct) (simp_all add: sends_after_append)

lemma dispatches_popped: "map fst (dispatches effs) = popped effs"
  by (induction effs rule: dispatches.induct) simp_all

lemma no_pop_no_dispatch:
  "popped effs = [] \<Longrightarrow> dispatches effs = [] \<and> sends_after effs = sent effs"
  by (induction effs rule: sends_after.induct) simp_all

text \<open>The trace of a tick that dispatches: the pop, then the writes of the send loop.\<close>

lemma broadcast_tick_trace:
  assumes "message_queue s = message # rest" and "clients s \<noteq> []"
  shows "snd (broadcast_tick raises s) =
           Popleft message #
             snd (send_loop raises message (clients s) (s\<lparr>message_queue := rest\<rparr>))"
  using assms by (simp add: broadcast_tick_def case_prod_beta)

lemma broadcast_tick_dispatches:
  assumes "message_queue s = message # rest" and "clients s \<noteq> []"
  shows "dispatches (snd (broadcast_tick raises s)) =
           [(message, map (\<lambda>c. (c, message)) (clients s))]"
    and "sends_after (snd (broadcast_tick raises s)) = []"
proof -
  let ?effs = "snd (send_loop raises message (clients s) (s\<lparr>message_queue := rest\<rparr>))"
  from no_pop_no_dispatch[OF send_loop_popped, of raises message "clients s"
      "s\<lparr>message_queue := rest\<rparr>"]
  have "dispatches ?effs = []" and "sends_after ?effs = sent ?effs" by simp_all
  then show "dispatches (snd (broadcast_tick raises s)) =
           [(message, map (\<lambda>c. (c, message)) (clients s))]"
    and "sends_after (snd (broadcast_tick raises s)) = []"
    by (simp_all add: broadcast_tick_trace[OF assms] send_loop_sent)
qed

lemma broadcast_tick_trace_ok:
  "sends_after (snd (broadcast_tick raises s)) = []
   \<and> sent (snd (broadcast_tick raises s)) =
       concat (map snd (dispatches (snd (broadcast_tick raises s))))
   \<and> list_all dispatch_ok (dispatches (snd (broadcast_tick raises s)))"
proof (cases "message_queue s = [] \<or> clients s = []")
  case True
  then show ?thesis by (simp add: broadcast_tick_idle)
next
  case False
  then obtain message rest where q: "message_queue s = message # rest"
    by (cases "message_queue s") auto
  from False have c: "clients s \<noteq> []" by simp
  have "list_all (\<lambda>w. snd w = message) (map (\<lambda>c. (c, message)) (clients s))"
    by (simp add: list_all_iff)
  then show ?thesis
    using c by (simp add: broadcast_tick_dispatches[OF q c] broadcast_tick_Cons(2)[OF q c]
        dispatch_ok_def)
qed

lemma bybit_callback_trace_ok:
  "sends_after (snd (bybit_callback parse dumps message s)) = []
   \<and> sent (snd (bybit_callback parse dumps message s)) = []
   \<and> dispatches (snd (bybit_callback parse dumps message s)) = []"
  by (simp add: bybit_callback_def split: sum.splits)

lemma step_trace_ok:
  "sends_after (snd (step parse dumps e s)) = []
   \<and> sent (snd (step parse dumps e s)) =
       concat (map snd (dispatches (snd (step parse dumps e s))))
   \<and> list_all dispatch_ok (dispatches (snd (step parse dumps e s)))"
proof (cases e)
  case (Connect c outcome)
  then show ?thesis by simp
next
  case (Disconnect c)
  then show ?thesis by simp
next
  case (Callback message)
  then show ?thesis using bybit_callback_trace_ok[of parse dumps message s] by simp
next
  case (Tick raises)
  then show ?thesis using broadcast_tick_trace_ok[of raises s] by simp
qed

lemma run_trace_ok:
  "sends_after (snd (run parse dumps evs s)) = []
   \<and> sent (snd (run parse dumps evs s)) =
       concat (map snd (dispatches (snd (run parse dumps evs s))))
   \<and> list_all dispatch_ok (dispatches (snd (run parse dumps evs s)))"
proof (induction evs arbitrary: s)
  case Nil
  show ?case by simp
next
  case (Cons e es)
  obtain s1 effs1 where st: "step parse dumps e s = (s1, effs1)"
    by (cases "step parse dumps e s")
  obtain s2 effs2 where rn: "run parse dumps es s1 = (s2, effs2)"
    by (cases "run parse dumps es s1")
  from step_trace_ok[of parse dumps e s] st
  have one: "sends_after effs1 = []" "sent effs1 = concat (map snd (dispatches effs1))"
    "list_all dispatch_ok (dispatches effs1)" by simp_all
  from Cons.IH[of s1] rn
  have rest: "sends_after effs2 = []" "sent effs2 = concat (map snd (dispatches effs2))"
    "list_all dispatch_ok (dispatches effs2)" by simp_all
  have "sends_after (effs1 @ effs2) = []"
    by (simp add: sends_after_append[OF rest(1)] one(1))
  moreover have "sent (effs1 @ effs2) = concat (map snd (dispatches (effs1 @ effs2)))"
    by (simp add: sent_append dispatches_append[OF rest(1)] one(2) rest(2))
  moreover have "list_all dispatch_ok (dispatches (effs1 @ effs2))"
    by (simp add: dispatches_append[OF rest(1)] one(3) rest(3))
  ultimately show ?case by (simp add: st rn)
qed

text \<open>
  C2. Along every run of the relay (registrations, deregistrations, vendor pushes and
  ticks, whatever the writes do), the batches popped so far followed by the batches
  still queued are the batches that were queued at the start followed by the batches
  appended, in the order of their appending: each batch leaves the queue once, at the
  head, in the order it came in. The pop is the dispatch: every call of
  \<^verbatim>\<open>send_text\<close> in the run belongs to the dispatch of a popped batch, the
  dispatches come in the order of the pops, and each of them writes the batch it popped,
  and no other text, to at least one client; the tick that pops a batch writes it to
  every client of its snapshot. A tick never appends, so a batch whose writes all fail
  is not queued again.
\<close>

theorem relay_queue_fifo:
  "popped (snd (run parse dumps evs initial)) @ message_queue (fst (run parse dumps evs initial)) =
     appended (snd (run parse dumps evs initial))
   \<and> popped (snd (run parse dumps evs s)) @ message_queue (fst (run parse dumps evs s)) =
     message_queue s @ appended (snd (run parse dumps evs s))
   \<and> appended (snd (broadcast_tick raises s)) = []
   \<and> length (popped (snd (broadcast_tick raises s))) \<le> 1
   \<and> map fst (dispatches (snd (run parse dumps evs s))) = popped (snd (run parse dumps evs s))
   \<and> sent (snd (run parse dumps evs s)) =
       concat (map snd (dispatches (snd (run parse dumps evs s))))
   \<and> list_all dispatch_ok (dispatches (snd (run parse dumps evs s)))
   \<and> (message_queue s = m # rest \<and> clients s \<noteq> [] \<longrightarrow>
        dispatches (snd (broadcast_tick raises s)) = [(m, map (\<lambda>c. (c, m)) (clients s))])"
proof -
  have "length (popped (snd (broadcast_tick raises s))) \<le> 1"
  proof (cases "message_queue s = [] \<or> clients s = []")
    case True
    then show ?thesis by (simp add: broadcast_tick_idle)
  next
    case False
    then obtain message rest where q: "message_queue s = message # rest"
      by (cases "message_queue s") auto
    from False have "clients s \<noteq> []" by simp
    from broadcast_tick_Cons(4)[OF q this, of raises] show ?thesis by simp
  qed
  moreover have "message_queue (initial :: 'a relay) = []"
    by (simp add: initial_def)
  moreover have "dispatches (snd (broadcast_tick raises s)) =
      [(m, map (\<lambda>c. (c, m)) (clients s))]"
    if "message_queue s = m # rest \<and> clients s \<noteq> []"
    using that broadcast_tick_dispatches(1)[of s m rest raises] by simp
  ultimately show ?thesis
    using run_fifo[of parse dumps evs initial] run_fifo[of parse dumps evs s]
      broadcast_tick_fifo[of raises s] run_trace_ok[of parse dumps evs s]
      dispatches_popped[of "snd (run parse dumps evs s)"]
    by simp
qed

lemma sample_record_converted:
  "convert_message parse_digits sample_record =
     Inr (JDict
       [(''close'', JFloat 12), (''high'', JFloat 13), (''low'', JFloat 9),
        (''open'', JFloat 10), (''time'', JFloat 10890), (''start'', JFloat 10860),
        (''end'', JFloat (10919999 / 1000)), (''confirm'', JBool False)])"
  by (simp add: sample_record_def convert_message_def parse_digits_def digit_val_def
      int_float_limit_def)

lemma sample_run_result:
  "run parse_digits sample_dumps sample_run initial =
     (\<lparr>active_bybit_ws = Some 0, message_queue = [], clients = [2],
        bybit_created = 1, bybit_live = [0]\<rparr>,
      [Append ''[]'', Append ''[c]'', Popleft ''[]'', SendText 1 ''[]'' False,
       LogSendError 1, Popleft ''[c]'', SendText 2 ''[c]'' True])"
  by (simp add: sample_run_def bybit_callback_def sample_record_converted initial_def
      broadcast_tick_def websocket_endpoint_connect_def set_add_def set_discard_def)

theorem relay_queue_fifo_witness:
  "popped (snd (run parse_digits sample_dumps sample_run initial)) = [''[]'', ''[c]'']
   \<and> message_queue (fst (run parse_digits sample_dumps sample_run initial)) = []
   \<and> appended (snd (run parse_digits sample_dumps sample_run initial)) = [''[]'', ''[c]'']
   \<and> dispatches (snd (run parse_digits sample_dumps sample_run initial)) =
       [(''[]'', [(1, ''[]'')]), (''[c]'', [(2, ''[c]'')])]
   \<and> sent (snd (run parse_digits sample_dumps sample_run initial)) =
       [(1, ''[]''), (2, ''[c]'')]
   \<and> list_all dispatch_ok (dispatches (snd (run parse_digits sample_dumps sample_run initial)))
   \<and> message_queue \<lparr>active_bybit_ws = Some 0, message_queue = [''a'', ''b''],
         clients = [1::nat, 2], bybit_created = 1, bybit_live = [0]\<rparr> = ''a'' # [''b'']
   \<and> clients \<lparr>active_bybit_ws = Some 0, message_queue = [''a'', ''b''],
         clients = [1::nat, 2], bybit_created = 1, bybit_live = [0]\<rparr> \<noteq> []
   \<and> appended (snd (broadcast_tick (\<lambda>c. True)
        \<lparr>active_bybit_ws = Some 0, message_queue = [''a'', ''b''],
         clients = [1::nat, 2], bybit_created = 1, bybit_live = [0]\<rparr>)) = []
   \<and> dispatches (snd (broadcast_tick (\<lambda>c. True)
        \<lparr>active_bybit_ws = Some 0, message_queue = [''a'', ''b''],
         clients = [1::nat, 2], bybit_created = 1, bybit_live = [0]\<rparr>)) =
       [(''a'', [(1, ''a''), (2, ''a'')])]"
  using relay_queue_fifo[of parse_digits sample_dumps sample_run initial "\<lambda>c. True"]
    relay_queue_fifo[of parse_digits sample_dumps "[]"
      "\<lparr>active_bybit_ws = Some 0, message_queue = [''a'', ''b''],
         clients = [1::nat, 2], bybit_created = 1, bybit_live = [0]\<rparr>" "\<lambda>c. True"
      "''a''" "[''b'']"]
  by (simp add: sample_run_result dispatch_ok_def)

section \<open>The normalizer\<close>

lemma bind_Inr_conv: "(bind x f = Inr y) = (\<exists>v. x = Inr v \<and> f v = Inr y)"
  by (cases x) simp_all

lemma getitem_raw_field: "(py_getitem m k = Inr v) = (raw_field m k = Some v)"
  by (cases m) (simp_all add: raw_field_def split: option.splits)

lemma get_float_numeric_field:
  "(bind (py_getitem m k) (py_float parse) = Inr r) = (numeric_field parse m k = Some r)"
proof (cases "raw_field m k")
  case None
  then have "\<And>v. py_getitem m k \<noteq> Inr v" by (simp add: getitem_raw_field)
  then show ?thesis using None by (simp add: bind_Inr_conv numeric_field_def)
next
  case (Some v)
  then have "py_getitem m k = Inr v" by (simp add: getitem_raw_field)
  then show ?thesis using Some by (simp add: numeric_field_def split: sum.splits)
qed

text \<open>The loop body yields a candle exactly when the specification's candle exists, and
  then it is that candle.\<close>

lemma convert_message_spec:
  "(convert_message parse m = Inr c) = (spec_candle parse m = Some c)"
  unfolding convert_message_def spec_candle_def
  by (simp only: bind_Inr_conv[where x = "bind (py_getitem m k) (py_float parse)" for k]
      bind_Inr_conv[where x = "py_getitem m k" for k]
      get_float_numeric_field getitem_raw_field bind_eq_Some_conv) simp

lemma well_formed_spec_candle:
  "well_formed parse m = (\<exists>c. spec_candle parse m = Some c)"
  by (simp add: well_formed_def spec_candle_def bind_eq_Some_conv) blast

lemma convert_message_malformed:
  assumes "\<not> well_formed parse m"
  shows "\<exists>e. convert_message parse m = Inl e"
proof (cases "convert_message parse m")
  case (Inl e)
  then show ?thesis by simp
next
  case (Inr c)
  then have "well_formed parse m"
    by (auto simp: convert_message_spec well_formed_spec_candle)
  with assms show ?thesis by simp
qed

lemma convert_loop_spec:
  "map (spec_candle parse) ms = map Some cs \<Longrightarrow> convert_loop parse ms acc = Inr (acc @ cs)"
proof (induction ms arbitrary: acc cs)
  case Nil
  then show ?case by simp
next
  case (Cons m ms)
  from Cons.prems obtain c cs' where cs: "cs = c # cs'"
    and c: "spec_candle parse m = Some c"
    and rest: "map (spec_candle parse) ms = map Some cs'"
    by (cases cs) auto
  from c have "convert_message parse m = Inr c" by (simp add: convert_message_spec)
  then show ?case using Cons.IH[OF rest, of "acc @ [c]"] cs by simp
qed

lemma convert_loop_malformed:
  "m \<in> set ms \<Longrightarrow> \<not> well_formed parse m \<Longrightarrow> \<exists>e. convert_loop parse ms acc = Inl e"
proof (induction ms arbitrary: acc)
  case Nil
  then show ?case by simp
next
  case (Cons m' ms)
  show ?case
  proof (cases "convert_message parse m'")
    case (Inl e)
    then show ?thesis by simp
  next
    case (Inr c)
    then have "well_formed parse m'"
      by (auto simp: convert_message_spec well_formed_spec_candle)
    with Cons.prems have "m \<in> set ms" by auto
    from Cons.IH[OF this Cons.prems(2), of "acc @ [c]"] Inr show ?thesis by simp
  qed
qed

lemma well_formed_batch:
  "\<forall>m\<in>set ms. well_formed parse m \<Longrightarrow> \<exists>cs. map (spec_candle parse) ms = map Some cs"
proof (induction ms)
  case Nil
  then show ?case by simp
next
  case (Cons m ms)
  then obtain cs where cs: "map (spec_candle parse) ms = map Some cs" by auto
  from Cons.prems obtain c where "spec_candle parse m = Some c"
    by (auto simp: well_formed_spec_candle)
  with cs have "map (spec_candle parse) (m # ms) = map Some (c # cs)" by simp
  then show ?case by blast
qed

lemma bybit_callback_data:
  assumes "raw_field message ''data'' = Some (JList ms)"
  shows "bybit_callback parse dumps message s =
     (case convert_loop parse ms [] of
        Inr converted_messages \<Rightarrow>
          (s\<lparr>message_queue := message_queue s @ [dumps (JList converted_messages)]\<rparr>,
           [Append (dumps (JList converted_messages))])
      | Inl e \<Rightarrow> (s, [LogCallbackError e]))"
proof -
  from assms have "py_getitem message ''data'' = Inr (JList ms)"
    by (simp add: getitem_raw_field)
  then show ?thesis by (simp add: bybit_callback_def)
qed

text \<open>
  C3. For a payload whose \<^verbatim>\<open>data\<close> is a list of well-formed records (each of
  the seven numeric fields is a value \<^verbatim>\<open>float\<close> converts, \<^verbatim>\<open>confirm\<close> is
  present), the callback appends one serialized batch to the queue; the batch has as many candles as the
  payload has records, and the candle at each position is the specification's candle
  of the record at that position: prices parsed, \<^verbatim>\<open>time\<close>, \<^verbatim>\<open>start\<close> and
  \<^verbatim>\<open>end\<close> the millisecond values divided by 1000 plus 10800, \<^verbatim>\<open>confirm\<close> copied.
\<close>

theorem normalizer_batch:
  assumes "raw_field message ''data'' = Some (JList ms)"
    and "\<forall>m\<in>set ms. well_formed parse m"
  shows "\<exists>batch.
      bybit_callback parse dumps message s =
        (s\<lparr>message_queue := message_queue s @ [dumps (JList batch)]\<rparr>,
         [Append (dumps (JList batch))])
      \<and> length batch = length ms
      \<and> (\<forall>i<length ms. spec_candle parse (ms ! i) = Some (batch ! i))"
proof -
  from well_formed_batch[OF assms(2)]
  obtain cs where cs: "map (spec_candle parse) ms = map Some cs" by blast
  then have len: "length cs = length ms"
    by (metis length_map)
  have nth: "spec_candle parse (ms ! i) = Some (cs ! i)" if "i < length ms" for i
  proof -
    have "map (spec_candle parse) ms ! i = map Some cs ! i" by (simp add: cs)
    then show ?thesis using that len by simp
  qed
  from convert_loop_spec[OF cs, of "[]"]
  have "convert_loop parse ms [] = Inr cs" by simp
  then have "bybit_callback parse dumps message s =
      (s\<lparr>message_queue := message_queue s @ [dumps (JList cs)]\<rparr>, [Append (dumps (JList cs))])"
    by (simp add: bybit_callback_data[OF assms(1)])
  with len nth show ?thesis by blast
qed

lemma sample_record_candle:
  "spec_candle parse_digits sample_record =
     Some (JDict
       [(''close'', JFloat 12), (''high'', JFloat 13), (''low'', JFloat 9),
        (''open'', JFloat 10), (''time'', JFloat 10890), (''start'', JFloat 10860),
        (''end'', JFloat (10919999 / 1000)), (''confirm'', JBool False)])"
  using sample_record_converted by (simp add: convert_message_spec)

theorem normalizer_batch_witness:
  "raw_field (JDict [(''topic'', JStr ''kline.1.KAITOUSDT''), (''data'', JList [sample_record])])
      ''data'' = Some (JList [sample_record])
   \<and> well_formed parse_digits sample_record
   \<and> (\<exists>batch.
        bybit_callback parse_digits sample_dumps
          (JDict [(''topic'', JStr ''kline.1.KAITOUSDT''), (''data'', JList [sample_record])])
          (initial :: nat relay) =
          ((initial :: nat relay)\<lparr>message_queue := message_queue (initial :: nat relay) @ [sample_dumps (JList batch)]\<rparr>,
           [Append (sample_dumps (JList batch))])
        \<and> length batch = length [sample_record]
        \<and> spec_candle parse_digits sample_record = Some (batch ! 0))"
proof -
  have data: "raw_field
      (JDict [(''topic'', JStr ''kline.1.KAITOUSDT''), (''data'', JList [sample_record])])
      ''data'' = Some (JList [sample_record])"
    by (simp add: raw_field_def)
  have wf: "\<forall>m\<in>set [sample_record]. well_formed parse_digits m"
    by (simp add: well_formed_spec_candle sample_record_candle)
  have wf1: "well_formed parse_digits sample_record"
    using wf by simp
  from normalizer_batch[OF data wf, of sample_dumps "initial :: nat relay"]
  obtain batch where
    run: "bybit_callback parse_digits sample_dumps
          (JDict [(''topic'', JStr ''kline.1.KAITOUSDT''), (''data'', JList [sample_record])])
          (initial :: nat relay) =
          ((initial :: nat relay)\<lparr>message_queue := message_queue (initial :: nat relay) @ [sample_dumps (JList batch)]\<rparr>,
           [Append (sample_dumps (JList batch))])"
    and len: "length batch = length [sample_record]"
    and nth: "\<forall>i<length [sample_record]. spec_candle parse_digits ([sample_record] ! i) = Some (batch ! i)"
    by blast
  from nth have "spec_candle parse_digits sample_record = Some (batch ! 0)" by simp
  with data wf1 run len show ?thesis by blast
qed

text \<open>An integer too large for a double is no numeric field: \<^verbatim>\<open>float\<close> raises
  OverflowError, the handler catches it, and nothing is queued.\<close>

lemma overflow_record_discarded:
  "\<not> well_formed parse overflow_record
   \<and> bybit_callback parse_digits dumps
        (JDict [(''data'', JList [sample_record, overflow_record])]) s =
       (s, [LogCallbackError OverflowError])"
proof -
  have "numeric_field parse overflow_record ''close'' = None"
    by (simp add: numeric_field_def raw_field_def overflow_record_def int_float_limit_def)
  then have "\<not> well_formed parse overflow_record"
    by (simp add: well_formed_def)
  moreover have "convert_message parse_digits overflow_record = Inl OverflowError"
    by (simp add: convert_message_def overflow_record_def int_float_limit_def)
  ultimately show ?thesis
    by (simp add: bybit_callback_def sample_record_converted)
qed

text \<open>
  C4. For a payload whose \<^verbatim>\<open>data\<close> list holds a malformed record (one of the eight
  fields missing, or one of the seven numeric fields not numeric), the callback leaves
  the relay state, and so the queue, exactly as it was, whatever the other records
  are; it logs the exception and returns.
\<close>

theorem normalizer_malformed_discards:
  assumes "raw_field message ''data'' = Some (JList ms)"
    and "m \<in> set ms"
    and "\<not> well_formed parse m"
  shows "\<exists>e. bybit_callback parse dumps message s = (s, [LogCallbackError e])"
proof -
  from convert_loop_malformed[OF assms(2,3), of "[]"]
  obtain e where "convert_loop parse ms [] = Inl e" by blast
  then have "bybit_callback parse dumps message s = (s, [LogCallbackError e])"
    by (simp add: bybit_callback_data[OF assms(1)])
  then show ?thesis by blast
qed

lemma malformed_record_raises:
  "convert_message parse_digits malformed_record = Inl ValueError"
  by (simp add: malformed_record_def convert_message_def parse_digits_def digit_val_def)

theorem normalizer_malformed_discards_witness:
  "raw_field (JDict [(''data'', JList [sample_record, malformed_record])]) ''data'' =
      Some (JList [sample_record, malformed_record])
   \<and> malformed_record \<in> set [sample_record, malformed_record]
   \<and> \<not> well_formed parse_digits malformed_record
   \<and> well_formed parse_digits sample_record
   \<and> (\<exists>e. bybit_callback parse_digits sample_dumps
          (JDict [(''data'', JList [sample_record, malformed_record])])
          \<lparr>active_bybit_ws = Some 0, message_queue = [''a''],
           clients = [1::nat], bybit_created = 1, bybit_live = [0]\<rparr> =
        (\<lparr>active_bybit_ws = Some 0, message_queue = [''a''],
           clients = [1::nat], bybit_created = 1, bybit_live = [0]\<rparr>,
         [LogCallbackError e]))"
proof -
  have data: "raw_field (JDict [(''data'', JList [sample_record, malformed_record])]) ''data'' =
      Some (JList [sample_record, malformed_record])"
    by (simp add: raw_field_def)
  have mem: "malformed_record \<in> set [sample_record, malformed_record]" by simp
  have bad: "\<not> well_formed parse_digits malformed_record"
    using malformed_record_raises
    by (auto simp: well_formed_spec_candle convert_message_spec[symmetric])
  have good: "well_formed parse_digits sample_record"
    by (simp add: well_formed_spec_candle sample_record_candle)
  from normalizer_malformed_discards[OF data mem bad] data mem bad good
  show ?thesis by blast
qed

section \<open>The ordering of a candle's timestamps\<close>

lemma unordered_record_converted:
  "convert_message parse_digits unordered_record =
     Inr (JDict
       [(''close'', JFloat 12), (''high'', JFloat 13), (''low'', JFloat 9),
        (''open'', JFloat 10), (''time'', JFloat 10800), (''start'', JFloat 10920),
        (''end'', JFloat 10860), (''confirm'', JBool True)])"
  by (simp add: unordered_record_def convert_message_def parse_digits_def digit_val_def
      int_float_limit_def)

text \<open>
  C9, as stated, fails: the normalizer builds a candle from any record whose fields
  are numeric and checks no ordering. The record with \<^verbatim>\<open>start\<close> 120000,
  \<^verbatim>\<open>end\<close> 60000 and \<^verbatim>\<open>timestamp\<close> 0 becomes a candle with \<^verbatim>\<open>start\<close> 10920,
  \<^verbatim>\<open>end\<close> 10860 and \<^verbatim>\<open>time\<close> 10800, and the batch holding it is queued.
\<close>

theorem candle_order_counterexample:
  "convert_message parse_digits unordered_record =
     Inr (JDict
       [(''close'', JFloat 12), (''high'', JFloat 13), (''low'', JFloat 9),
        (''open'', JFloat 10), (''time'', JFloat 10800), (''start'', JFloat 10920),
        (''end'', JFloat 10860), (''confirm'', JBool True)])
   \<and> \<not> candle_ordered (JDict
       [(''close'', JFloat 12), (''high'', JFloat 13), (''low'', JFloat 9),
        (''open'', JFloat 10), (''time'', JFloat 10800), (''start'', JFloat 10920),
        (''end'', JFloat 10860), (''confirm'', JBool True)])
   \<and> bybit_callback parse_digits sample_dumps
        (JDict [(''data'', JList [unordered_record])]) (initial :: nat relay) =
      ((initial :: nat relay)\<lparr>message_queue := [''[c]'']\<rparr>, [Append ''[c]''])"
  by (simp add: unordered_record_converted candle_ordered_def raw_field_def
      bybit_callback_def initial_def)

text \<open>
  C9, amended. The normalizer does not check the ordering; it carries over the ordering
  of the raw record. Every candle it builds comes from a record with numeric
  \<^verbatim>\<open>start\<close>, \<^verbatim>\<open>timestamp\<close> and \<^verbatim>\<open>end\<close>, and when the raw record has
  \<open>start \<le> timestamp\<close> and \<open>start \<le> end\<close> the candle has \<open>start \<le> time\<close> and
  \<open>start \<le> end\<close>.
\<close>

theorem candle_order_preserved:
  assumes "convert_message parse m = Inr c"
  shows "\<exists>S T E.
      numeric_field parse m ''start'' = Some S
      \<and> numeric_field parse m ''timestamp'' = Some T
      \<and> numeric_field parse m ''end'' = Some E
      \<and> (S \<le> T \<and> S \<le> E \<longrightarrow> candle_ordered c)"
proof -
  from assms have "spec_candle parse m = Some c" by (simp add: convert_message_spec)
  then obtain cl h l opn T S E cf where
    T: "numeric_field parse m ''timestamp'' = Some T"
    and S: "numeric_field parse m ''start'' = Some S"
    and E: "numeric_field parse m ''end'' = Some E"
    and c: "c = JDict
         [(''close'', JFloat cl), (''high'', JFloat h), (''low'', JFloat l), (''open'', JFloat opn),
          (''time'', JFloat (T / 1000 + 10800)),
          (''start'', JFloat (S / 1000 + 10800)),
          (''end'', JFloat (E / 1000 + 10800)),
          (''confirm'', cf)]"
    by (auto simp: spec_candle_def bind_eq_Some_conv)
  have "candle_ordered c" if "S \<le> T \<and> S \<le> E"
    using that by (simp add: c candle_ordered_def raw_field_def)
  with S T E show ?thesis by blast
qed

theorem candle_order_preserved_witness:
  "convert_message parse_digits sample_record =
     Inr (JDict
       [(''close'', JFloat 12), (''high'', JFloat 13), (''low'', JFloat 9),
        (''open'', JFloat 10), (''time'', JFloat 10890), (''start'', JFloat 10860),
        (''end'', JFloat (10919999 / 1000)), (''confirm'', JBool False)])
   \<and> numeric_field parse_digits sample_record ''start'' = Some 60000
   \<and> numeric_field parse_digits sample_record ''timestamp'' = Some 90000
   \<and> numeric_field parse_digits sample_record ''end'' = Some 119999
   \<and> (60000::real) \<le> 90000 \<and> (60000::real) \<le> 119999
   \<and> candle_ordered (JDict
       [(''close'', JFloat 12), (''high'', JFloat 13), (''low'', JFloat 9),
        (''open'', JFloat 10), (''time'', JFloat 10890), (''start'', JFloat 10860),
        (''end'', JFloat (10919999 / 1000)), (''confirm'', JBool False)])"
proof -
  have fields: "numeric_field parse_digits sample_record ''start'' = Some 60000"
    "numeric_field parse_digits sample_record ''timestamp'' = Some 90000"
    "numeric_field parse_digits sample_record ''end'' = Some 119999"
    by (simp_all add: numeric_field_def raw_field_def sample_record_def int_float_limit_def)
  from candle_order_preserved[OF sample_record_converted] fields
  have "candle_ordered (JDict
       [(''close'', JFloat 12), (''high'', JFloat 13), (''low'', JFloat 9),
        (''open'', JFloat 10), (''time'', JFloat 10890), (''start'', JFloat 10860),
        (''end'', JFloat (10919999 / 1000)), (''confirm'', JBool False)])"
    by simp
  with sample_record_converted fields show ?thesis by simp
qed

section \<open>The upstream subscription\<close>

lemma set_add_nonempty: "set_add c cs \<noteq> []"
  by (auto simp: set_add_def)

lemma finally_closed_when_empty:
  "clients (websocket_endpoint_finally c s) = [] \<Longrightarrow>
     active_bybit_ws (websocket_endpoint_finally c s) = None"
  by (auto simp: websocket_endpoint_finally_def Let_def split: option.splits if_splits)

lemma connect_closed_when_empty:
  assumes "clients (websocket_endpoint_connect outcome c s) = []"
  shows "active_bybit_ws (websocket_endpoint_connect outcome c s) = None"
proof (cases "active_bybit_ws s")
  case (Some h)
  with assms show ?thesis
    by (simp add: websocket_endpoint_connect_def set_add_nonempty)
next
  case None
  with assms show ?thesis
    by (cases outcome)
      (simp_all add: websocket_endpoint_connect_def set_add_nonempty finally_closed_when_empty)
qed

lemma finally_inv:
  "subscription_inv s \<Longrightarrow> subscription_inv (websocket_endpoint_finally c s)"
  by (auto simp: subscription_inv_def websocket_endpoint_finally_def set_discard_def Let_def
      split: option.splits)

lemma connect_inv:
  assumes "subscription_inv s"
  shows "subscription_inv (websocket_endpoint_connect outcome c s)"
proof (cases "active_bybit_ws s")
  case (Some h)
  with assms show ?thesis
    by (simp add: websocket_endpoint_connect_def subscription_inv_def)
next
  case None
  with assms have empty: "clients s = []" and live: "bybit_live s = []"
    by (simp_all add: subscription_inv_def)
  show ?thesis
    using None empty live
    by (cases outcome)
      (simp_all add: websocket_endpoint_connect_def websocket_endpoint_finally_def
        subscription_inv_def set_add_def set_discard_def)
qed

lemma tick_inv:
  assumes "subscription_inv s"
  shows "subscription_inv (fst (broadcast_tick raises s))"
proof (cases "message_queue s = [] \<or> clients s = []")
  case True
  with assms show ?thesis by (simp add: broadcast_tick_idle)
next
  case False
  then obtain message rest where q: "message_queue s = message # rest"
    by (cases "message_queue s") auto
  from False have "clients s \<noteq> []" by simp
  from broadcast_tick_Cons(1)[OF q this, of raises] assms show ?thesis
    by (auto simp: subscription_inv_def)
qed

lemma callback_inv:
  "subscription_inv s \<Longrightarrow> subscription_inv (fst (bybit_callback parse dumps message s))"
  by (simp add: bybit_callback_def subscription_inv_def split: sum.splits)

lemma step_inv:
  "subscription_inv s \<Longrightarrow> subscription_inv (fst (step parse dumps e s))"
  by (cases e) (simp_all add: connect_inv finally_inv callback_inv tick_inv)

lemma run_Cons_fst:
  "fst (run parse dumps (e # es) s) = fst (run parse dumps es (fst (step parse dumps e s)))"
  by (simp add: case_prod_beta)

lemma run_inv:
  "subscription_inv s \<Longrightarrow> subscription_inv (fst (run parse dumps evs s))"
proof (induction evs arbitrary: s)
  case Nil
  then show ?case by simp
next
  case (Cons e es)
  from Cons.IH[OF step_inv[OF Cons.prems]] show ?case
    by (simp only: run_Cons_fst)
qed

lemma initial_inv: "subscription_inv initial"
  by (simp add: subscription_inv_def initial_def)

lemma lifecycle_step_closed_when_empty:
  "is_lifecycle e \<Longrightarrow> clients (fst (step parse dumps e s)) = [] \<Longrightarrow>
     active_bybit_ws (fst (step parse dumps e s)) = None"
  by (cases e) (simp_all add: connect_closed_when_empty finally_closed_when_empty)

lemma lifecycle_run_closed_when_empty:
  "list_all is_lifecycle evs \<Longrightarrow> (clients s = [] \<Longrightarrow> active_bybit_ws s = None) \<Longrightarrow>
     clients (fst (run parse dumps evs s)) = [] \<Longrightarrow>
     active_bybit_ws (fst (run parse dumps evs s)) = None"
proof (induction evs arbitrary: s)
  case Nil
  then show ?case by simp
next
  case (Cons e es)
  from Cons.prems(1) have e: "is_lifecycle e" and es: "list_all is_lifecycle es" by simp_all
  show ?case
    unfolding run_Cons_fst
  proof (rule Cons.IH[OF es])
    show "clients (fst (step parse dumps e s)) = [] \<Longrightarrow>
        active_bybit_ws (fst (step parse dumps e s)) = None"
      by (rule lifecycle_step_closed_when_empty[OF e])
    show "clients (fst (run parse dumps es (fst (step parse dumps e s)))) = []"
      using Cons.prems(3) by (simp only: run_Cons_fst)
  qed
qed

text \<open>
  C6. In every state reached from the initial one by registrations and deregistrations
  (whatever the vendor library does at each registration): when the registry is empty
  the subscription is Closed and no kline subscription is live; a registration that
  finds the registry empty, with the vendor calls returning, ends with the subscription
  Open, one kline subscription live and that client registered; and the deregistration
  of the only registered client ends with the registry empty and the subscription
  Closed.
\<close>

theorem lazy_open_close:
  assumes "list_all is_lifecycle evs"
    and "s = fst (run parse dumps evs initial)"
  shows "(clients s = [] \<longrightarrow> \<not> upstream_open s \<and> bybit_live s = [])
    \<and> (clients s = [] \<longrightarrow>
         upstream_open (websocket_endpoint_connect Subscribed c s)
         \<and> clients (websocket_endpoint_connect Subscribed c s) = [c]
         \<and> length (bybit_live (websocket_endpoint_connect Subscribed c s)) = 1)
    \<and> (set (clients s) = {c} \<longrightarrow>
         clients (websocket_endpoint_finally c s) = []
         \<and> \<not> upstream_open (websocket_endpoint_finally c s)
         \<and> bybit_live (websocket_endpoint_finally c s) = [])"
proof -
  have inv: "subscription_inv s"
    unfolding assms(2) by (rule run_inv[OF initial_inv])
  have closed: "active_bybit_ws s = None" if "clients s = []"
    using lifecycle_run_closed_when_empty[OF assms(1), of initial parse dumps] that
    by (simp add: assms(2) initial_def)
  have first: "\<not> upstream_open s \<and> bybit_live s = []" if "clients s = []"
    using closed[OF that] inv by (simp add: upstream_open_def subscription_inv_def)
  have opened: "upstream_open (websocket_endpoint_connect Subscribed c s)
      \<and> clients (websocket_endpoint_connect Subscribed c s) = [c]
      \<and> length (bybit_live (websocket_endpoint_connect Subscribed c s)) = 1"
    if "clients s = []"
    using closed[OF that] first[OF that] that
    by (simp add: websocket_endpoint_connect_def upstream_open_def set_add_def)
  have last: "clients (websocket_endpoint_finally c s) = []
      \<and> \<not> upstream_open (websocket_endpoint_finally c s)
      \<and> bybit_live (websocket_endpoint_finally c s) = []"
    if only: "set (clients s) = {c}"
  proof -
    have gone: "clients (websocket_endpoint_finally c s) = []"
    proof -
      have "set (removeAll c (clients s)) = {}" using only by simp
      then have "removeAll c (clients s) = []" by (simp only: set_empty)
      then show ?thesis
        by (simp add: websocket_endpoint_finally_def set_discard_def Let_def
            split: option.splits)
    qed
    have "subscription_inv (websocket_endpoint_finally c s)"
      by (rule finally_inv[OF inv])
    with finally_closed_when_empty[OF gone] gone show ?thesis
      by (simp add: upstream_open_def subscription_inv_def)
  qed
  from first opened last show ?thesis by blast
qed

lemma lifecycle_run_a_result:
  "run parse_digits sample_dumps lifecycle_run_a initial =
     (\<lparr>active_bybit_ws = None, message_queue = [], clients = [],
        bybit_created = 1, bybit_live = []\<rparr>, [])"
  by (simp add: lifecycle_run_a_def initial_def websocket_endpoint_connect_def
      websocket_endpoint_finally_def set_add_def set_discard_def)

lemma lifecycle_run_b_result:
  "run parse_digits sample_dumps lifecycle_run_b initial =
     (\<lparr>active_bybit_ws = Some 0, message_queue = [], clients = [2],
        bybit_created = 1, bybit_live = [0]\<rparr>, [])"
  by (simp add: lifecycle_run_b_def initial_def websocket_endpoint_connect_def
      websocket_endpoint_finally_def set_add_def set_discard_def)

theorem lazy_open_close_witness:
  "list_all is_lifecycle lifecycle_run_a
   \<and> clients (fst (run parse_digits sample_dumps lifecycle_run_a initial)) = []
   \<and> \<not> upstream_open (fst (run parse_digits sample_dumps lifecycle_run_a initial))
   \<and> bybit_live (fst (run parse_digits sample_dumps lifecycle_run_a initial)) = []
   \<and> upstream_open (websocket_endpoint_connect Subscribed 3
        (fst (run parse_digits sample_dumps lifecycle_run_a initial)))
   \<and> clients (websocket_endpoint_connect Subscribed 3
        (fst (run parse_digits sample_dumps lifecycle_run_a initial))) = [3]
   \<and> length (bybit_live (websocket_endpoint_connect Subscribed 3
        (fst (run parse_digits sample_dumps lifecycle_run_a initial)))) = 1
   \<and> list_all is_lifecycle lifecycle_run_b
   \<and> set (clients (fst (run parse_digits sample_dumps lifecycle_run_b initial))) = {2}
   \<and> clients (websocket_endpoint_finally 2
        (fst (run parse_digits sample_dumps lifecycle_run_b initial))) = []
   \<and> \<not> upstream_open (websocket_endpoint_finally 2
        (fst (run parse_digits sample_dumps lifecycle_run_b initial)))
   \<and> bybit_live (websocket_endpoint_finally 2
        (fst (run parse_digits sample_dumps lifecycle_run_b initial))) = []"
proof -
  have la: "list_all is_lifecycle lifecycle_run_a"
    by (simp add: lifecycle_run_a_def)
  have lb: "list_all is_lifecycle lifecycle_run_b"
    by (simp add: lifecycle_run_b_def)
  have ea: "clients (fst (run parse_digits sample_dumps lifecycle_run_a initial)) = []"
    by (simp add: lifecycle_run_a_result)
  have eb: "set (clients (fst (run parse_digits sample_dumps lifecycle_run_b initial))) = {2}"
    by (simp add: lifecycle_run_b_result)
  from lazy_open_close[OF la refl, of parse_digits sample_dumps 3]
    lazy_open_close[OF lb refl, of parse_digits sample_dumps 2] la lb ea eb
  show ?thesis by blast
qed

text \<open>
  C7. In every state the relay reaches from the initial one, by any events, at most one
  kline subscription is live, and it is the one of the object \<^verbatim>\<open>active_bybit_ws\<close>
  holds. A registration that finds an object there constructs no new object and
  subscribes nothing: the object, the count of constructed objects and the live
  subscriptions are as before.
\<close>

theorem single_subscription:
  "length (bybit_live (fst (run parse dumps evs initial))) \<le> 1
   \<and> bybit_live (fst (run parse dumps evs initial)) =
       (case active_bybit_ws (fst (run parse dumps evs initial)) of
          None \<Rightarrow> [] | Some h \<Rightarrow> [h])
   \<and> (active_bybit_ws s = Some h \<longrightarrow>
        active_bybit_ws (websocket_endpoint_connect outcome c s) = Some h
        \<and> bybit_created (websocket_endpoint_connect outcome c s) = bybit_created s
        \<and> bybit_live (websocket_endpoint_connect outcome c s) = bybit_live s)"
proof -
  have "subscription_inv (fst (run parse dumps evs (initial :: 'a relay)))"
    by (rule run_inv[OF initial_inv])
  then have live: "bybit_live (fst (run parse dumps evs (initial :: 'a relay))) =
       (case active_bybit_ws (fst (run parse dumps evs (initial :: 'a relay))) of
          None \<Rightarrow> [] | Some h \<Rightarrow> [h])"
    by (simp add: subscription_inv_def)
  then have "length (bybit_live (fst (run parse dumps evs (initial :: 'a relay)))) \<le> 1"
    by (simp split: option.splits)
  moreover have "active_bybit_ws (websocket_endpoint_connect outcome c s) = Some h
        \<and> bybit_created (websocket_endpoint_connect outcome c s) = bybit_created s
        \<and> bybit_live (websocket_endpoint_connect outcome c s) = bybit_live s"
    if "active_bybit_ws s = Some h"
    using that by (simp add: websocket_endpoint_connect_def)
  ultimately show ?thesis using live by blast
qed

theorem single_subscription_witness:
  "active_bybit_ws (fst (run parse_digits sample_dumps sample_run initial)) = Some 0
   \<and> bybit_live (fst (run parse_digits sample_dumps sample_run initial)) = [0]
   \<and> length (bybit_live (fst (run parse_digits sample_dumps sample_run initial))) \<le> 1
   \<and> active_bybit_ws (websocket_endpoint_connect Subscribed 3
        (fst (run parse_digits sample_dumps sample_run initial))) = Some 0
   \<and> bybit_created (websocket_endpoint_connect Subscribed 3
        (fst (run parse_digits sample_dumps sample_run initial))) =
      bybit_created (fst (run parse_digits sample_dumps sample_run initial))
   \<and> bybit_live (websocket_endpoint_connect Subscribed 3
        (fst (run parse_digits sample_dumps sample_run initial))) =
      bybit_live (fst (run parse_digits sample_dumps sample_run initial))"
proof -
  have a: "active_bybit_ws (fst (run parse_digits sample_dumps sample_run initial)) = Some 0"
    by (simp add: sample_run_result)
  have l: "bybit_live (fst (run parse_digits sample_dumps sample_run initial)) = [0]"
    by (simp add: sample_run_result)
  from single_subscription[of parse_digits sample_dumps sample_run
      "fst (run parse_digits sample_dumps sample_run initial)" 0 Subscribed 3] a l
  show ?thesis by blast
qed

text \<open>
  The discard in the broadcast loop (line 55) is no registration or deregistration:
  it can empty the registry and leave the subscription open. The subscription is then
  closed when the handler of that client ends.
\<close>

lemma broadcast_discard_keeps_subscription:
  "fst (run parse_digits sample_dumps
        [Connect (1::nat) Subscribed, Callback (JDict [(''data'', JList [])]),
         Tick (\<lambda>c. True)] initial) =
     \<lparr>active_bybit_ws = Some 0, message_queue = [], clients = [],
      bybit_created = 1, bybit_live = [0]\<rparr>
   \<and> fst (run parse_digits sample_dumps
        [Connect (1::nat) Subscribed, Callback (JDict [(''data'', JList [])]),
         Tick (\<lambda>c. True), Disconnect 1] initial) =
     \<lparr>active_bybit_ws = None, message_queue = [], clients = [],
      bybit_created = 1, bybit_live = []\<rparr>"
  by (simp add: initial_def bybit_callback_def broadcast_tick_def websocket_endpoint_connect_def
      websocket_endpoint_finally_def set_add_def set_discard_def)

section \<open>The historical query\<close>

lemma candlestick_spec:
  assumes "spec_entry parse r = Some e"
  shows "candlestick parse r = Inr e"
proof -
  from assms obtain t opn h l c rest where r: "r = JList (t # opn # h # l # c # rest)"
    by (auto simp: spec_entry_def split: json.splits list.splits)
  from assms r obtain T opn' h' l' c' where
    num: "numeric parse t = Some T" "numeric parse opn = Some opn'" "numeric parse h = Some h'"
      "numeric parse l = Some l'" "numeric parse c = Some c'"
    and e: "e = JDict
              [(''time'', JFloat (T / 1000 + 10800)), (''open'', JFloat opn'),
               (''high'', JFloat h'), (''low'', JFloat l'), (''close'', JFloat c')]"
    by (auto simp: spec_entry_def bind_eq_Some_conv)
  from num have "py_float parse t = Inr T" "py_float parse opn = Inr opn'"
    "py_float parse h = Inr h'" "py_float parse l = Inr l'" "py_float parse c = Inr c'"
    by (simp_all add: numeric_def split: sum.splits)
  then show ?thesis
    by (simp add: candlestick_def r e)
qed

lemma candlestick_loop_spec:
  assumes "map (spec_entry parse) rs = map Some es"
  shows "k \<le> length rs \<Longrightarrow>
    candlestick_loop parse [k..<length rs] (take k es @ drop k rs) = Inr es"
proof (induction "length rs - k" arbitrary: k)
  case 0
  from assms have len: "length es = length rs" by (metis length_map)
  from 0 have "k = length rs" by simp
  then show ?case using len by simp
next
  case (Suc d)
  from assms have len: "length es = length rs" by (metis length_map)
  from Suc.hyps(2) have k: "k < length rs" by simp
  have idx: "[k..<length rs] = k # [Suc k..<length rs]"
    using k by (simp add: upt_conv_Cons)
  have at: "(take k es @ drop k rs) ! k = rs ! k"
    using k len by (simp add: nth_append)
  have "map (spec_entry parse) rs ! k = map Some es ! k" by (simp add: assms)
  then have "spec_entry parse (rs ! k) = Some (es ! k)" using k len by simp
  then have conv: "candlestick parse (rs ! k) = Inr (es ! k)" by (rule candlestick_spec)
  have upd: "(take k es @ drop k rs)[k := es ! k] = take (Suc k) es @ drop (Suc k) rs"
  proof -
    have "drop k rs = rs ! k # drop (Suc k) rs"
      using k by (simp add: Cons_nth_drop_Suc)
    then have "(take k es @ drop k rs)[k := es ! k] = take k es @ es ! k # drop (Suc k) rs"
      using k len by (simp add: list_update_append)
    also have "\<dots> = take (Suc k) es @ drop (Suc k) rs"
      using k len by (simp add: take_Suc_conv_app_nth)
    finally show ?thesis .
  qed
  have "d = length rs - Suc k" using Suc.hyps(2) by simp
  from Suc.hyps(1)[OF this] k
  have "candlestick_loop parse [Suc k..<length rs] (take (Suc k) es @ drop (Suc k) rs) = Inr es"
    by simp
  then show ?case
    using k len by (simp add: idx at conv upd)
qed

lemma read_root_list:
  assumes "kline_params parse category symbol interval limit end_arg = Inr params"
    and "get_kline params = Inr reply"
    and "raw_field reply ''result'' = Some result"
    and "raw_field result ''list'' = Some (JList rs)"
    and "map (spec_entry parse) rs = map Some entries"
  shows "read_root parse get_kline category symbol interval limit end_arg =
           Inr (JList (rev entries))"
proof -
  from assms(3,4) have get: "py_getitem reply ''result'' = Inr result"
    "py_getitem result ''list'' = Inr (JList rs)"
    by (simp_all add: getitem_raw_field)
  from candlestick_loop_spec[OF assms(5), of 0]
  have "candlestick_loop parse [0..<length rs] rs = Inr entries" by simp
  then show ?thesis
    by (simp add: read_root_def reply_entries_def assms(1,2) get)
qed

lemma kline_params_limit:
  assumes "kline_params parse category symbol interval limit end_arg = Inr params"
  shows "map_of params ''limit'' =
           Some (JInt (case limit of None \<Rightarrow> 200 | Some n \<Rightarrow> if n = 0 then 200 else n))"
proof (cases "end_arg = None \<or> end_arg = Some []")
  case True
  with assms show ?thesis
    by (auto simp: kline_params_def)
next
  case False
  then obtain e where e: "end_arg = Some e" "e \<noteq> []" by (cases end_arg) auto
  with assms obtain x where "py_float parse (JStr e) = Inr x"
    by (cases "py_float parse (JStr e)") (simp_all add: kline_params_def)
  with assms e show ?thesis
    by (auto simp: kline_params_def)
qed

lemma kline_params_end:
  assumes "e \<noteq> []" and "parse e = Some x"
  shows "kline_params parse category symbol interval limit (Some e) =
           Inr ([(''category'', JStr category), (''symbol'', JStr symbol),
                 (''interval'', JStr interval),
                 (''limit'', JInt (case limit of None \<Rightarrow> 200
                                   | Some n \<Rightarrow> if n = 0 then 200 else n))]
                @ [(''end'', JFloat ((x - 10800) * 1000))])"
  using assms by (simp add: kline_params_def)

lemma read_root_call:
  assumes "kline_params parse category symbol interval limit end_arg = Inr params"
  shows "read_root parse get_kline category symbol interval limit end_arg =
           bind (get_kline params) (reply_entries parse)"
  using assms by (simp add: read_root_def)

lemma read_root_no_call:
  assumes "kline_params parse category symbol interval limit end_arg = Inl err"
  shows "read_root parse get_kline category symbol interval limit end_arg = Inl err"
  using assms by (simp add: read_root_def)

text \<open>
  C8. The endpoint's reply is what lines 137 to 148 make of the upstream call at the
  keyword arguments of lines 127 to 134. When the upstream reply carries the list
  \<open>rs\<close> under \<^verbatim>\<open>["result"]["list"]\<close> and every row has its entry (at least five
  items, the first five values \<^verbatim>\<open>float\<close> converts), the endpoint returns the
  entries in reverse order, each the specification's entry of its row: \<^verbatim>\<open>time\<close>
  the millisecond timestamp divided by 1000 plus 10800, the four prices parsed. With
  \<^verbatim>\<open>limit\<close> omitted the upstream call gets the limit 200. With \<^verbatim>\<open>end\<close>
  supplied, as a non-empty numeric string, the upstream call gets
  \<open>(end - 10800) * 1000\<close>.
\<close>

theorem historical_reversal:
  "(kline_params parse category symbol interval limit end_arg = Inr params
      \<and> get_kline params = Inr reply
      \<and> raw_field reply ''result'' = Some result
      \<and> raw_field result ''list'' = Some (JList rs)
      \<and> map (spec_entry parse) rs = map Some entries
    \<longrightarrow> read_root parse get_kline category symbol interval limit end_arg =
          Inr (JList (rev entries)))
   \<and> (kline_params parse category symbol interval None end_arg = Inr params'
    \<longrightarrow> map_of params' ''limit'' = Some (JInt 200)
        \<and> read_root parse get_kline category symbol interval None end_arg =
            bind (get_kline params') (reply_entries parse))
   \<and> (e \<noteq> [] \<and> parse e = Some x
    \<longrightarrow> (\<exists>ps. kline_params parse category symbol interval limit (Some e) = Inr ps
           \<and> map_of ps ''end'' = Some (JFloat ((x - 10800) * 1000))
           \<and> read_root parse get_kline category symbol interval limit (Some e) =
               bind (get_kline ps) (reply_entries parse)))
   \<and> (kline_params parse category symbol interval limit end_arg = Inr params
    \<longrightarrow> read_root parse get_kline category symbol interval limit end_arg =
          bind (get_kline params) (reply_entries parse))"
proof -
  have "map_of params' ''limit'' = Some (JInt 200)
        \<and> read_root parse get_kline category symbol interval None end_arg =
            bind (get_kline params') (reply_entries parse)"
    if "kline_params parse category symbol interval None end_arg = Inr params'"
    using kline_params_limit[OF that] read_root_call[OF that, of get_kline] by simp
  moreover have "\<exists>ps. kline_params parse category symbol interval limit (Some e) = Inr ps
           \<and> map_of ps ''end'' = Some (JFloat ((x - 10800) * 1000))
           \<and> read_root parse get_kline category symbol interval limit (Some e) =
               bind (get_kline ps) (reply_entries parse)"
    if "e \<noteq> []" "parse e = Some x"
  proof -
    from kline_params_end[of e parse x category symbol interval limit] that
    obtain ps where ps: "kline_params parse category symbol interval limit (Some e) = Inr ps"
      and en: "map_of ps ''end'' = Some (JFloat ((x - 10800) * 1000))"
      by simp
    from ps en read_root_call[OF ps, of get_kline] show ?thesis by blast
  qed
  moreover have "read_root parse get_kline category symbol interval limit end_arg =
          bind (get_kline params) (reply_entries parse)"
    if "kline_params parse category symbol interval limit end_arg = Inr params"
    using that by (rule read_root_call)
  ultimately show ?thesis
    using read_root_list[of parse category symbol interval limit end_arg params get_kline
        reply result rs entries]
    by blast
qed

lemma sample_rows_entries:
  "map (spec_entry parse_digits) sample_rows = map Some sample_entries"
  by (simp add: sample_rows_def sample_entries_def spec_entry_def numeric_def parse_digits_def digit_val_def)

lemma sample_kline_params:
  "kline_params parse_digits ''linear'' ''KAITOUSDT'' ''1'' None (Some ''10980'') =
     Inr sample_params"
  by (simp add: kline_params_def sample_params_def parse_digits_def digit_val_def)

theorem historical_reversal_witness:
  "kline_params parse_digits ''linear'' ''KAITOUSDT'' ''1'' None (Some ''10980'') =
      Inr sample_params
   \<and> map (spec_entry parse_digits) sample_rows = map Some sample_entries
   \<and> read_root parse_digits sample_get_kline ''linear'' ''KAITOUSDT'' ''1'' None
        (Some ''10980'') =
      Inr (JList
        [JDict [(''time'', JFloat 10860), (''open'', JFloat 10), (''high'', JFloat 13),
                (''low'', JFloat 9), (''close'', JFloat 12)],
         JDict [(''time'', JFloat 10920), (''open'', JFloat 12), (''high'', JFloat 14),
                (''low'', JFloat 11), (''close'', JFloat 13)]])
   \<and> map_of sample_params ''limit'' = Some (JInt 200)
   \<and> ''10980'' \<noteq> []
   \<and> parse_digits ''10980'' = Some 10980
   \<and> map_of sample_params ''end'' = Some (JFloat ((10980 - 10800) * 1000))
   \<and> read_root parse_digits sample_get_kline ''linear'' ''KAITOUSDT'' ''1'' None
        (Some ''10980'') =
      bind (sample_get_kline sample_params) (reply_entries parse_digits)"
proof -
  have reply: "sample_get_kline sample_params =
      Inr (JDict [(''retCode'', JInt 0),
                  (''result'', JDict [(''symbol'', JStr ''KAITOUSDT''),
                                      (''list'', JList sample_rows)])])"
    by (simp add: sample_get_kline_def)
  have result: "raw_field (JDict [(''retCode'', JInt 0),
                  (''result'', JDict [(''symbol'', JStr ''KAITOUSDT''),
                                      (''list'', JList sample_rows)])]) ''result'' =
      Some (JDict [(''symbol'', JStr ''KAITOUSDT''), (''list'', JList sample_rows)])"
    by (simp add: raw_field_def)
  have rows: "raw_field (JDict [(''symbol'', JStr ''KAITOUSDT''), (''list'', JList sample_rows)])
      ''list'' = Some (JList sample_rows)"
    by (simp add: raw_field_def)
  have num: "''10980'' \<noteq> []" "parse_digits ''10980'' = Some 10980"
    by (simp_all add: parse_digits_def digit_val_def)
  have rev_entries: "rev sample_entries =
        [JDict [(''time'', JFloat 10860), (''open'', JFloat 10), (''high'', JFloat 13),
                (''low'', JFloat 9), (''close'', JFloat 12)],
         JDict [(''time'', JFloat 10920), (''open'', JFloat 12), (''high'', JFloat 14),
                (''low'', JFloat 11), (''close'', JFloat 13)]]"
    by (simp add: sample_entries_def)
  note inst = historical_reversal[where parse = parse_digits and category = "''linear''"
      and symbol = "''KAITOUSDT''" and interval = "''1''" and limit = None
      and end_arg = "Some ''10980''" and params = sample_params and params' = sample_params
      and get_kline = sample_get_kline and rs = sample_rows and entries = sample_entries
      and e = "''10980''" and x = 10980
      and reply = "JDict [(''retCode'', JInt 0),
                  (''result'', JDict [(''symbol'', JStr ''KAITOUSDT''),
                                      (''list'', JList sample_rows)])]"
      and result = "JDict [(''symbol'', JStr ''KAITOUSDT''), (''list'', JList sample_rows)]"]
  from inst sample_kline_params reply result rows sample_rows_entries num
  have "read_root parse_digits sample_get_kline ''linear'' ''KAITOUSDT'' ''1'' None
        (Some ''10980'') = Inr (JList (rev sample_entries))"
    and "map_of sample_params ''limit'' = Some (JInt 200)"
    and "map_of sample_params ''end'' = Some (JFloat ((10980 - 10800) * 1000))"
    and "read_root parse_digits sample_get_kline ''linear'' ''KAITOUSDT'' ''1'' None
        (Some ''10980'') =
      bind (sample_get_kline sample_params) (reply_entries parse_digits)"
    by auto
  with sample_kline_params sample_rows_entries num rev_entries show ?thesis
    by simp
qed

text \<open>A row whose timestamp is an integer too large for a double makes
  \<^verbatim>\<open>float\<close> raise OverflowError, which nothing in the endpoint catches.\<close>

lemma overflow_row_raises:
  "read_root parse_digits (\<lambda>params. Inr overflow_reply) ''linear'' ''KAITOUSDT'' ''1''
     None None = Inl OverflowError"
  by (simp add: read_root_def reply_entries_def kline_params_def overflow_reply_def
      candlestick_def int_float_limit_def)

text \<open>
  C10. A \<^verbatim>\<open>limit\<close> of 0 is not forwarded. The keyword arguments the endpoint
  builds are those it builds with \<^verbatim>\<open>limit\<close> omitted, their limit is 200, and the
  endpoint's reply is what lines 137 to 148 make of the upstream call at these
  arguments: an exception of that call is the endpoint's, and when building the
  arguments raises, that exception is the endpoint's and no call is made. So the
  whole reply is the same as with \<^verbatim>\<open>limit\<close> omitted.
\<close>

theorem zero_limit_is_default:
  "kline_params parse category symbol interval (Some 0) end_arg =
     kline_params parse category symbol interval None end_arg
   \<and> read_root parse get_kline category symbol interval (Some 0) end_arg =
     read_root parse get_kline category symbol interval None end_arg
   \<and> (kline_params parse category symbol interval (Some 0) end_arg = Inr params
      \<longrightarrow> map_of params ''limit'' = Some (JInt 200)
          \<and> read_root parse get_kline category symbol interval (Some 0) end_arg =
              bind (get_kline params) (reply_entries parse))
   \<and> (kline_params parse category symbol interval (Some 0) end_arg = Inr params
        \<and> get_kline params = Inl err
      \<longrightarrow> read_root parse get_kline category symbol interval (Some 0) end_arg = Inl err)
   \<and> (kline_params parse category symbol interval (Some 0) end_arg = Inl err
      \<longrightarrow> read_root parse get_kline category symbol interval (Some 0) end_arg = Inl err)"
proof -
  have same: "kline_params parse category symbol interval (Some 0) end_arg =
     kline_params parse category symbol interval None end_arg"
    by (simp add: kline_params_def)
  have call: "map_of params ''limit'' = Some (JInt 200)
          \<and> read_root parse get_kline category symbol interval (Some 0) end_arg =
              bind (get_kline params) (reply_entries parse)"
    if "kline_params parse category symbol interval (Some 0) end_arg = Inr params"
    using kline_params_limit[OF that] read_root_call[OF that, of get_kline] by simp
  have fails: "read_root parse get_kline category symbol interval (Some 0) end_arg = Inl err"
    if "kline_params parse category symbol interval (Some 0) end_arg = Inr params"
      and "get_kline params = Inl err"
    using read_root_call[OF that(1), of get_kline] that(2) by simp
  have no_call: "read_root parse get_kline category symbol interval (Some 0) end_arg = Inl err"
    if "kline_params parse category symbol interval (Some 0) end_arg = Inl err"
    using that by (rule read_root_no_call)
  have "read_root parse get_kline category symbol interval (Some 0) end_arg =
     read_root parse get_kline category symbol interval None end_arg"
    using same by (simp add: read_root_def)
  with same call fails no_call show ?thesis by blast
qed

theorem zero_limit_is_default_witness:
  "kline_params parse_digits ''linear'' ''KAITOUSDT'' ''1'' (Some 0) (Some ''10980'') =
      Inr sample_params
   \<and> kline_params parse_digits ''linear'' ''KAITOUSDT'' ''1'' (Some 0) (Some ''10980'') =
      kline_params parse_digits ''linear'' ''KAITOUSDT'' ''1'' None (Some ''10980'')
   \<and> read_root parse_digits sample_get_kline ''linear'' ''KAITOUSDT'' ''1'' (Some 0)
        (Some ''10980'') =
      read_root parse_digits sample_get_kline ''linear'' ''KAITOUSDT'' ''1'' None
        (Some ''10980'')
   \<and> map_of sample_params ''limit'' = Some (JInt 200)
   \<and> read_root parse_digits sample_get_kline ''linear'' ''KAITOUSDT'' ''1'' (Some 0)
        (Some ''10980'') =
      bind (sample_get_kline sample_params) (reply_entries parse_digits)
   \<and> read_root parse_digits (\<lambda>ps. Inl UpstreamError) ''linear'' ''KAITOUSDT'' ''1'' (Some 0)
        (Some ''10980'') = Inl UpstreamError
   \<and> kline_params parse_digits ''linear'' ''KAITOUSDT'' ''1'' (Some 0) (Some ''n/a'') =
      Inl ValueError
   \<and> read_root parse_digits sample_get_kline ''linear'' ''KAITOUSDT'' ''1'' (Some 0)
        (Some ''n/a'') = Inl ValueError"
proof -
  have params: "kline_params parse_digits ''linear'' ''KAITOUSDT'' ''1'' (Some 0)
      (Some ''10980'') = Inr sample_params"
    by (simp add: kline_params_def sample_params_def parse_digits_def digit_val_def)
  have bad: "kline_params parse_digits ''linear'' ''KAITOUSDT'' ''1'' (Some 0)
      (Some ''n/a'') = Inl ValueError"
    by (simp add: kline_params_def parse_digits_def digit_val_def)
  note ok = zero_limit_is_default[of parse_digits "''linear''" "''KAITOUSDT''" "''1''"
      "Some ''10980''" sample_get_kline sample_params UpstreamError]
  note down = zero_limit_is_default[of parse_digits "''linear''" "''KAITOUSDT''" "''1''"
      "Some ''10980''" "\<lambda>ps. Inl UpstreamError" sample_params UpstreamError]
  note unbuilt = zero_limit_is_default[of parse_digits "''linear''" "''KAITOUSDT''" "''1''"
      "Some ''n/a''" sample_get_kline sample_params ValueError]
  from ok have same: "kline_params parse_digits ''linear'' ''KAITOUSDT'' ''1'' (Some 0)
        (Some ''10980'') =
      kline_params parse_digits ''linear'' ''KAITOUSDT'' ''1'' None (Some ''10980'')"
    by blast
  from ok have reply: "read_root parse_digits sample_get_kline ''linear'' ''KAITOUSDT'' ''1''
        (Some 0) (Some ''10980'') =
      read_root parse_digits sample_get_kline ''linear'' ''KAITOUSDT'' ''1'' None
        (Some ''10980'')"
    by blast
  from ok params have call: "map_of sample_params ''limit'' = Some (JInt 200)"
    "read_root parse_digits sample_get_kline ''linear'' ''KAITOUSDT'' ''1'' (Some 0)
        (Some ''10980'') =
      bind (sample_get_kline sample_params) (reply_entries parse_digits)"
    by blast+
  from down params have fails: "read_root parse_digits (\<lambda>ps. Inl UpstreamError) ''linear''
        ''KAITOUSDT'' ''1'' (Some 0) (Some ''10980'') = Inl UpstreamError"
    by blast
  from unbuilt bad have no_call: "read_root parse_digits sample_get_kline ''linear''
        ''KAITOUSDT'' ''1'' (Some 0) (Some ''n/a'') = Inl ValueError"
    by blast
  from params bad same reply call fails no_call show ?thesis
    by (intro conjI)
qed

end
